theory Spec2Isabelle
  imports Complex_Main "HOL-Library.Multiset"
begin

section \<open>Numbers\<close>

text \<open>
  The services compute with JavaScript numbers, IEEE-754 doubles.  A double is modelled by
  the real number it denotes, and every arithmetic operation of the source by the exact
  operation followed by \<open>fl\<close>, the rounding to the nearest double with ties to the even
  significand, which is what IEEE-754 prescribes for \<open>+\<close>, \<open>-\<close>, \<open>*\<close> and \<open>/\<close>.  \<open>fl\<close> covers
  the normal and the subnormal range; the infinities and NaN are not modelled (the
  divisors of the source are guarded or positive counts, and the magnitudes stay far
  below \<open>2^1024\<close>).  Integer-valued quantities (the fields delivered by the upstream API,
  counts, the tier score) are kept as \<open>int\<close> and \<open>nat\<close>: they stay far below \<open>2^53\<close>, where
  doubles compute exactly.
\<close>

definition pow2 :: "int \<Rightarrow> real" where
  "pow2 e = (if 0 \<le> e then 2 ^ nat e else 1 / 2 ^ nat (- e))"

text \<open>The binary exponent \<open>e\<close> of a positive number, \<open>2^e \<le> x < 2^(e+1)\<close>.\<close>

function expo_up :: "real \<Rightarrow> int" where
  "expo_up x = (if 2 \<le> x then expo_up (x / 2) + 1 else 0)"
  by pat_completeness auto
termination
proof (relation "measure (\<lambda>x. nat \<lceil>x\<rceil>)")
  show "wf (measure (\<lambda>x::real. nat \<lceil>x\<rceil>))" by simp
next
  fix x :: real
  assume x: "2 \<le> x"
  have "x / 2 \<le> of_int (\<lceil>x\<rceil> - 1)"
  proof -
    have "x \<le> of_int \<lceil>x\<rceil>" by (rule le_of_int_ceiling)
    with x have "x / 2 \<le> of_int \<lceil>x\<rceil> - 1" by linarith
    then show ?thesis by simp
  qed
  then have "\<lceil>x / 2\<rceil> \<le> \<lceil>x\<rceil> - 1" by (simp only: ceiling_le_iff)
  moreover have "2 \<le> \<lceil>x\<rceil>" using x by (simp add: le_ceiling_iff)
  ultimately show "(x / 2, x) \<in> measure (\<lambda>x. nat \<lceil>x\<rceil>)" by simp
qed

function expo_down :: "real \<Rightarrow> int" where
  "expo_down x = (if 0 < x \<and> x < 1 then expo_down (x * 2) - 1 else 0)"
  by pat_completeness auto
termination
proof (relation "measure (\<lambda>x. nat \<lceil>1 / x\<rceil>)")
  show "wf (measure (\<lambda>x::real. nat \<lceil>1 / x\<rceil>))" by simp
next
  fix x :: real
  assume x: "0 < x \<and> x < 1"
  define y where "y = 1 / x"
  have y: "1 < y" unfolding y_def using x by (simp add: less_divide_eq_1_pos)
  have c: "2 \<le> \<lceil>y\<rceil>" using y by (simp add: le_ceiling_iff)
  have "y \<le> of_int \<lceil>y\<rceil>" by (rule le_of_int_ceiling)
  moreover have "2 \<le> real_of_int \<lceil>y\<rceil>" using c by linarith
  ultimately have "y / 2 \<le> of_int \<lceil>y\<rceil> - 1" by linarith
  then have "y / 2 \<le> of_int (\<lceil>y\<rceil> - 1)" by simp
  then have le: "\<lceil>y / 2\<rceil> \<le> \<lceil>y\<rceil> - 1" by (simp only: ceiling_le_iff)
  have e: "1 / (x * 2) = y / 2" unfolding y_def by simp
  have "nat \<lceil>y / 2\<rceil> < nat \<lceil>y\<rceil>" using le c by linarith
  then show "(x * 2, x) \<in> measure (\<lambda>x. nat \<lceil>1 / x\<rceil>)"
    unfolding in_measure e y_def .
qed

declare expo_up.simps [simp del]

declare expo_down.simps [simp del]

text \<open>
  Rounding to the nearest double: with \<open>e\<close> the exponent of \<open>x\<close> (at least -1022, below
  which the doubles are subnormal and equally spaced), the doubles around \<open>x\<close> are the
  multiples of \<open>2^(e-52)\<close>; the nearest is taken, and of two equally near the even one.
\<close>

definition fl :: "real \<Rightarrow> real" where
  "fl x =
    (if x = 0 then 0
     else
       let e = max (if 1 \<le> \<bar>x\<bar> then expo_up \<bar>x\<bar> else expo_down \<bar>x\<bar>) (- 1022);
           ulp = pow2 (e - 52);
           n = x / ulp;
           f = \<lfloor>n\<rfloor>;
           d = n - of_int f;
           r = (if d < 1 / 2 then f else if 1 / 2 < d then f + 1
                else if even f then f else f + 1)
       in of_int r * ulp)"

text \<open>
  \<open>Math.round\<close> gives the nearest integer, halves upwards; the result is exact.
  \<open>round2\<close> is the expression \<open>Math.round(x * 100) / 100\<close>.
\<close>

definition js_round :: "real \<Rightarrow> real" where
  "js_round x = of_int \<lfloor>x + 1 / 2\<rfloor>"

definition round2 :: "real \<Rightarrow> real" where
  "round2 x = fl (js_round (fl (x * 100)) / 100)"

text \<open>
  \<open>Math.log10\<close>, \<open>Math.pow\<close> and \<open>Math.sqrt\<close> are left to the implementation by the language
  standard (their results are approximations that may differ between engines), so
  they are parameters of the model.
\<close>

record MathLib =
  math_log10 :: "real \<Rightarrow> real"
  math_pow :: "real \<Rightarrow> real \<Rightarrow> real"
  math_sqrt :: "real \<Rightarrow> real"

text \<open>\<open>v || d\<close> on an optional number: \<open>undefined\<close> and \<open>0\<close> are both falsy.\<close>

definition js_or :: "int option \<Rightarrow> int \<Rightarrow> int" where
  "js_or v d = (case v of None \<Rightarrow> d | Some n \<Rightarrow> if n = 0 then d else n)"

section \<open>Data model (riot.types.ts)\<close>

text \<open>
  The interfaces of \<open>riot.types.ts\<close> with the fields the services read.  A field name
  that two interfaces share is kept once and prefixed elsewhere: \<open>acc_\<close> in \<open>RiotAccount\<close>,
  \<open>part_puuid\<close> in \<open>ParticipantDto\<close>, and \<open>laneAssignment\<close> for the \<open>laneDistribution\<close> of a
  \<open>Team\<close>, whose roles map to players (\<open>None\<close> for an absent or \<open>null\<close> occupant).  Roles are
  the five keys, as a datatype.
\<close>

record RiotAccount =
  acc_puuid :: string
  acc_gameName :: string
  acc_tagLine :: string

record LeagueEntry =
  queueType :: string
  tier :: string
  rank :: string
  leaguePoints :: int
  wins :: int
  losses :: int

record ParticipantDto =
  part_puuid :: string
  teamPosition :: string
  individualPosition :: string
  kills :: int
  deaths :: int
  assists :: int
  totalMinionsKilled :: int
  neutralMinionsKilled :: int
  visionScore :: int
  win :: bool

record MatchDto =
  gameDuration :: int
  participants :: "ParticipantDto list"

datatype lane = TOP | JUNGLE | MIDDLE | BOTTOM | UTILITY

text \<open>The object \<open>{ TOP: n, JUNGLE: n, MIDDLE: n, BOTTOM: n, UTILITY: n }\<close>.\<close>

record LaneCounts =
  n_TOP :: nat
  n_JUNGLE :: nat
  n_MIDDLE :: nat
  n_BOTTOM :: nat
  n_UTILITY :: nat

fun count_of :: "LaneCounts \<Rightarrow> lane \<Rightarrow> nat" where
  "count_of c TOP = n_TOP c"
| "count_of c JUNGLE = n_JUNGLE c"
| "count_of c MIDDLE = n_MIDDLE c"
| "count_of c BOTTOM = n_BOTTOM c"
| "count_of c UTILITY = n_UTILITY c"

definition zeroCounts :: LaneCounts where
  "zeroCounts = \<lparr>n_TOP = 0, n_JUNGLE = 0, n_MIDDLE = 0, n_BOTTOM = 0, n_UTILITY = 0\<rparr>"

record PlayerStats =
  gameName :: string
  tagLine :: string
  puuid :: string
  avgKills :: real
  avgDeaths :: real
  avgAssists :: real
  avgCS :: real
  kda :: real
  winRate :: real
  preferredLane :: lane
  laneDistribution :: LaneCounts
  totalGames :: int
  teamContribution :: real
  tierInfo :: "(string \<times> string \<times> int) option"

record Team =
  teamNumber :: nat
  players :: "PlayerStats list"
  avgTeamScore :: real
  laneAssignment :: "lane \<Rightarrow> PlayerStats option"

datatype error = InvalidInput | InsufficientResults nat | TypeError

section \<open>Tier score (riotApi.service.ts)\<close>

definition TIER_SCORES :: "(string \<times> int) list" where
  "TIER_SCORES =
    [(''IRON'', 0), (''BRONZE'', 400), (''SILVER'', 800), (''GOLD'', 1200),
     (''PLATINUM'', 1600), (''EMERALD'', 2000), (''DIAMOND'', 2400),
     (''MASTER'', 2800), (''GRANDMASTER'', 2800), (''CHALLENGER'', 2800)]"

definition RANK_SCORES :: "(string \<times> int) list" where
  "RANK_SCORES = [(''IV'', 0), (''III'', 100), (''II'', 200), (''I'', 300)]"

text \<open>
  \<open>calculateTierScore(rankInfo?)\<close>: \<open>None\<close> is the absent rank entry.  The base is
  \<open>TIER_SCORES[tier] || 1200\<close> and the division offset \<open>RANK_SCORES[rank] || 0\<close>.
\<close>

definition calculateTierScore :: "LeagueEntry option \<Rightarrow> int" where
  "calculateTierScore rankInfo =
    (case rankInfo of
       None \<Rightarrow> 1200
     | Some r \<Rightarrow>
         let baseScore = js_or (map_of TIER_SCORES (tier r)) 1200 in
         if tier r \<in> set [''MASTER'', ''GRANDMASTER'', ''CHALLENGER'']
         then baseScore + leaguePoints r
         else let rankScore = js_or (map_of RANK_SCORES (rank r)) 0
              in baseScore + rankScore + leaguePoints r)"

section \<open>Player analysis (riotApi.service.ts, analyzePlayerStats)\<close>

text \<open>
  What an awaited call of one of the service's fetch methods settles to: a returned value
  or a thrown error.  \<open>Settled\<close> collects, per argument, the outcomes of
  \<open>getAccountByRiotId\<close>, \<open>getLeagueEntriesByPuuid\<close>, \<open>getMatchHistory\<close> and
  \<open>getMatchDetails\<close> (\<open>None\<close> is the \<open>null\<close> these methods return on a failed lookup).
\<close>

datatype 'a awaited = Returned 'a | Threw

record Settled =
  accountByRiotId :: "string \<Rightarrow> string \<Rightarrow> RiotAccount option awaited"
  leagueEntriesByPuuid :: "string \<Rightarrow> LeagueEntry list awaited"
  matchHistory :: "string \<Rightarrow> string list awaited"
  matchDetails :: "string \<Rightarrow> MatchDto option awaited"

text \<open>The zero-valued object literal the analyzer returns or starts from.\<close>

definition zeroStats ::
  "string \<Rightarrow> string \<Rightarrow> string \<Rightarrow> (string \<times> string \<times> int) option \<Rightarrow> PlayerStats" where
  "zeroStats gameName' tagLine' puuid' tierInfo' =
    \<lparr>gameName = gameName', tagLine = tagLine', puuid = puuid',
     avgKills = 0, avgDeaths = 0, avgAssists = 0, avgCS = 0, kda = 0, winRate = 0,
     preferredLane = TOP, laneDistribution = zeroCounts, totalGames = 0,
     teamContribution = 0, tierInfo = tierInfo'\<rparr>"

text \<open>Step 1: \<open>account\<close> stays \<open>null\<close> when the lookup returns \<open>null\<close> or throws.\<close>

definition resolveAccount :: "Settled \<Rightarrow> string \<Rightarrow> string \<Rightarrow> RiotAccount option" where
  "resolveAccount up gameName' tagLine' =
    (case accountByRiotId up gameName' tagLine' of Threw \<Rightarrow> None | Returned a \<Rightarrow> a)"

text \<open>Step 2: \<open>rankInfo = soloRank || flexRank\<close>, undefined when the lookup throws.\<close>

definition rankInfo_of :: "Settled \<Rightarrow> string \<Rightarrow> LeagueEntry option" where
  "rankInfo_of up puuid' =
    (case leagueEntriesByPuuid up puuid' of
       Threw \<Rightarrow> None
     | Returned leagues \<Rightarrow>
         (case find (\<lambda>l. queueType l = ''RANKED_SOLO_5x5'') leagues of
            Some soloRank \<Rightarrow> Some soloRank
          | None \<Rightarrow> find (\<lambda>l. queueType l = ''RANKED_FLEX_SR'') leagues))"

definition tierInfo_of :: "LeagueEntry option \<Rightarrow> (string \<times> string \<times> int) option" where
  "tierInfo_of rankInfo = map_option (\<lambda>r. (tier r, rank r, leaguePoints r)) rankInfo"

text \<open>Step 3: the match identifiers, empty when the lookup throws.\<close>

definition matchIds_of :: "Settled \<Rightarrow> string \<Rightarrow> string list" where
  "matchIds_of up puuid' =
    (case matchHistory up puuid' of Threw \<Rightarrow> [] | Returned ids \<Rightarrow> ids)"

text \<open>Step 4: the details of each match; a thrown error or \<open>null\<close> drops the match.\<close>

definition fetchedMatches :: "Settled \<Rightarrow> string list \<Rightarrow> MatchDto list" where
  "fetchedMatches up matchIds =
    List.map_filter
      (\<lambda>matchId. case matchDetails up matchId of Threw \<Rightarrow> None | Returned m \<Rightarrow> m) matchIds"

text \<open>Step 5: the accumulators of the \<open>forEach\<close> over the matches.\<close>

record Totals =
  totalKills :: int
  totalDeaths :: int
  totalAssists :: int
  totalVSPM :: real
  winCount :: nat
  totalCSPM :: real
  laneCount :: LaneCounts

definition zeroTotals :: Totals where
  "zeroTotals = \<lparr>totalKills = 0, totalDeaths = 0, totalAssists = 0, totalVSPM = 0,
                  winCount = 0, totalCSPM = 0, laneCount = zeroCounts\<rparr>"

text \<open>The own keys of \<open>laneCount\<close> (\<open>laneCount.hasOwnProperty(position)\<close>).\<close>

definition lane_of_key :: "string \<Rightarrow> lane option" where
  "lane_of_key position =
    map_of [(''TOP'', TOP), (''JUNGLE'', JUNGLE), (''MIDDLE'', MIDDLE),
            (''BOTTOM'', BOTTOM), (''UTILITY'', UTILITY)] position"

fun increment :: "LaneCounts \<Rightarrow> lane \<Rightarrow> LaneCounts" where
  "increment c TOP = c\<lparr>n_TOP := n_TOP c + 1\<rparr>"
| "increment c JUNGLE = c\<lparr>n_JUNGLE := n_JUNGLE c + 1\<rparr>"
| "increment c MIDDLE = c\<lparr>n_MIDDLE := n_MIDDLE c + 1\<rparr>"
| "increment c BOTTOM = c\<lparr>n_BOTTOM := n_BOTTOM c + 1\<rparr>"
| "increment c UTILITY = c\<lparr>n_UTILITY := n_UTILITY c + 1\<rparr>"

definition accumulate :: "string \<Rightarrow> Totals \<Rightarrow> MatchDto \<Rightarrow> Totals" where
  "accumulate puuid' t match =
    (case find (\<lambda>p. part_puuid p = puuid') (participants match) of
       None \<Rightarrow> t
     | Some participant \<Rightarrow>
         let t1 = t\<lparr>totalKills := totalKills t + kills participant,
                    totalDeaths := totalDeaths t + deaths participant,
                    totalAssists := totalAssists t + assists participant\<rparr>;
             gameDurationMinutes = fl (real_of_int (gameDuration match) / 60);
             t2 = (if gameDurationMinutes > 0
                   then let cs = totalMinionsKilled participant + neutralMinionsKilled participant
                        in t1\<lparr>totalVSPM := fl (totalVSPM t1
                                   + fl (real_of_int (visionScore participant) / gameDurationMinutes)),
                               totalCSPM := fl (totalCSPM t1
                                   + fl (real_of_int cs / gameDurationMinutes))\<rparr>
                   else t1);
             t3 = (if win participant then t2\<lparr>winCount := winCount t2 + 1\<rparr> else t2);
             position = (if individualPosition participant \<noteq> []
                         then individualPosition participant else teamPosition participant)
         in (case lane_of_key position of
               None \<Rightarrow> t3
             | Some l \<Rightarrow> t3\<lparr>laneCount := increment (laneCount t3) l\<rparr>))"

definition aggregate :: "string \<Rightarrow> MatchDto list \<Rightarrow> Totals" where
  "aggregate puuid' matches = foldl (accumulate puuid') zeroTotals matches"

text \<open>Step 6: the derived locals; \<open>n\<close> is \<open>gamesPlayed = matches.length\<close>.\<close>

definition kda_of :: "Totals \<Rightarrow> nat \<Rightarrow> real" where
  "kda_of t n =
    (let avgKills' = fl (real_of_int (totalKills t) / real n);
         avgDeaths' = fl (real_of_int (totalDeaths t) / real n);
         avgAssists' = fl (real_of_int (totalAssists t) / real n)
     in if avgDeaths' > 0 then fl (fl (avgKills' + avgAssists') / avgDeaths')
        else fl (avgKills' + avgAssists'))"

definition recentWinRate :: "Totals \<Rightarrow> nat \<Rightarrow> real" where
  "recentWinRate t n = fl (fl (real (winCount t) / real n) * 100)"

text \<open>
  The keys of \<open>laneCount\<close> in insertion order, which is the order of
  \<open>Object.entries(laneCount)\<close>; the team maker's \<open>lanes\<close> array is the same list.
\<close>

definition lanes :: "lane list" where
  "lanes = [TOP, JUNGLE, MIDDLE, BOTTOM, UTILITY]"

text \<open>
  \<open>Object.entries(laneCount).reduce((a, b) => laneCount[a[0]] >= laneCount[b[0]] ? a : b)[0]\<close>:
  a \<open>reduce\<close> without initial value starts from the first entry.
\<close>

definition preferredLane_of :: "LaneCounts \<Rightarrow> lane" where
  "preferredLane_of c =
    foldl (\<lambda>a b. if count_of c a \<ge> count_of c b then a else b) (hd lanes) (tl lanes)"

definition kdaBonus :: "real \<Rightarrow> real" where
  "kdaBonus kda' = max (- 150) (min 150 (fl (fl (kda' - 3.0) * 30)))"

definition winRateBonus :: "real \<Rightarrow> real" where
  "winRateBonus recentWinRate' = fl (fl (recentWinRate' - 50) * 5)"

definition totalSeasonGames :: "LeagueEntry option \<Rightarrow> int" where
  "totalSeasonGames rankInfo = (case rankInfo of None \<Rightarrow> 0 | Some r \<Rightarrow> wins r + losses r)"

definition activityBonus :: "MathLib \<Rightarrow> LeagueEntry option \<Rightarrow> real" where
  "activityBonus math rankInfo =
    (if totalSeasonGames rankInfo > 0
     then min 50 (fl (math_log10 math (real_of_int (totalSeasonGames rankInfo)) * 15)) else 0)"

definition statsBonus :: "lane \<Rightarrow> real \<Rightarrow> real \<Rightarrow> real" where
  "statsBonus preferredLane' avgVSPM avgCSPM =
    (if preferredLane' = UTILITY then fl (fl (avgVSPM - 2.0) * 20)
     else fl (fl (avgCSPM - 6.5) * 10))"

text \<open>
  \<open>tierScore + kdaBonus + winRateBonus + activityBonus + statsBonus\<close>, added from the left.
\<close>

definition finalScore :: "MathLib \<Rightarrow> LeagueEntry option \<Rightarrow> Totals \<Rightarrow> nat \<Rightarrow> real" where
  "finalScore math rankInfo t n =
    fl (fl (fl (fl (real_of_int (calculateTierScore rankInfo) + kdaBonus (kda_of t n))
                + winRateBonus (recentWinRate t n))
            + activityBonus math rankInfo)
        + statsBonus (preferredLane_of (laneCount t))
            (fl (totalVSPM t / real n)) (fl (totalCSPM t / real n)))"

text \<open>
  \<open>analyzePlayerStats\<close>.  The progress callback is advisory and left out.  On values of
  the declared types nothing after step 4 throws, so the outer \<open>catch\<close> (which would return
  the zero-valued object again) has no branch here.
\<close>

definition analyzePlayerStats ::
  "MathLib \<Rightarrow> Settled \<Rightarrow> string \<Rightarrow> string \<Rightarrow> PlayerStats" where
  "analyzePlayerStats math up gameName' tagLine' =
    (case resolveAccount up gameName' tagLine' of
       None \<Rightarrow> zeroStats gameName' tagLine' ''unknown'' None
     | Some account \<Rightarrow>
         let rankInfo = rankInfo_of up (acc_puuid account);
             matchIds = matchIds_of up (acc_puuid account);
             baseStats = zeroStats gameName' tagLine' (acc_puuid account) (tierInfo_of rankInfo)
         in if matchIds = []
            then baseStats\<lparr>teamContribution := real_of_int (calculateTierScore rankInfo)\<rparr>
            else
              let matches = fetchedMatches up matchIds;
                  t = aggregate (acc_puuid account) matches;
                  gamesPlayed = length matches
              in if gamesPlayed = 0
                 then baseStats\<lparr>teamContribution := real_of_int (calculateTierScore rankInfo)\<rparr>
                 else
                   \<lparr>gameName = gameName', tagLine = tagLine', puuid = acc_puuid account,
                    avgKills = round2 (fl (real_of_int (totalKills t) / real gamesPlayed)),
                    avgDeaths = round2 (fl (real_of_int (totalDeaths t) / real gamesPlayed)),
                    avgAssists = round2 (fl (real_of_int (totalAssists t) / real gamesPlayed)),
                    avgCS = fl (js_round (fl (fl (totalCSPM t / real gamesPlayed) * 10)) / 10),
                    kda = round2 (kda_of t gamesPlayed),
                    winRate = round2 (recentWinRate t gamesPlayed),
                    preferredLane = preferredLane_of (laneCount t),
                    laneDistribution = laneCount t,
                    totalGames = totalSeasonGames rankInfo,
                    teamContribution = round2 (finalScore math rankInfo t gamesPlayed),
                    tierInfo = tierInfo_of rankInfo\<rparr>)"

section \<open>Fetching through the rate limiter (riotApi.service.ts)\<close>

text \<open>
  What the upstream answers to one request: the data, or an error.  An error carries the
  HTTP status (none when there was no response) and the value of a numeric
  \<open>retry-after\<close> header in seconds (none when the header is absent).
\<close>

record HttpError =
  status :: "nat option"
  retryAfter :: "nat option"

datatype 'd response = Data 'd | Failed HttpError

text \<open>
  The listener \<open>limiter.on('failed', ...)\<close>: for status 429 it returns the number of
  milliseconds \<open>parseInt(retry-after) * 1000\<close>, or 10000 without the header; for any other
  error it returns \<open>undefined\<close>.
\<close>

definition onFailed :: "HttpError \<Rightarrow> nat option" where
  "onFailed error' =
    (if status error' = Some 429
     then Some (case retryAfter error' of Some seconds \<Rightarrow> seconds * 1000 | None \<Rightarrow> 10000)
     else None)"

text \<open>
  The function every fetch method hands to \<open>limiter.schedule\<close>: it returns the response
  data, rethrows an error of status 429, and turns any other error into the method's
  fallback (\<open>null\<close> or \<open>[]\<close>).  \<open>Inl\<close> is the thrown error.
\<close>

definition job :: "('d \<Rightarrow> 'a) \<Rightarrow> 'a \<Rightarrow> 'd response \<Rightarrow> HttpError + 'a" where
  "job wrap fallback r =
    (case r of
       Data d \<Rightarrow> Inr (wrap d)
     | Failed error' \<Rightarrow> if status error' = Some 429 then Inl error' else Inr fallback)"

text \<open>
  \<open>limiter.schedule\<close> of the Bottleneck library, as far as retries go: the job runs; when it
  throws, the \<open>failed\<close> listener is asked, and if it returns a number the limiter waits that
  many milliseconds and runs the job again, otherwise the promise is rejected with the
  error.  The list holds the upstream's answers to the successive attempts; when it is
  used up the promise has not settled (\<open>None\<close>).  The trace records each request sent and
  each wait with its duration.
\<close>

datatype event = Request | Wait nat

fun schedule :: "('r \<Rightarrow> HttpError + 'a) \<Rightarrow> 'r list \<Rightarrow> event list \<times> (HttpError + 'a) option" where
  "schedule job' [] = ([], None)"
| "schedule job' (r # rs) =
    (case job' r of
       Inr v \<Rightarrow> ([Request], Some (Inr v))
     | Inl error' \<Rightarrow>
         (case onFailed error' of
            None \<Rightarrow> ([Request], Some (Inl error'))
          | Some ms \<Rightarrow>
              (let (trace, result) = schedule job' rs
               in (Request # Wait ms # trace, result))))"

text \<open>
  The service state: the match cache, each cached promise given by what it settles to,
  and the log of the requests for match details sent upstream.
\<close>

record Service =
  matchCache :: "string \<rightharpoonup> (HttpError + MatchDto option) option"
  requests :: "string list"

text \<open>
  \<open>getMatchDetails\<close>: a cached promise is returned as it is; otherwise the fetch is
  scheduled and its promise stored under the match identifier.  \<open>upstream matchId\<close> are the
  answers the upstream gives to the attempts of this call.
\<close>

definition getMatchDetails ::
  "(string \<Rightarrow> MatchDto response list) \<Rightarrow> string \<Rightarrow> Service
    \<Rightarrow> (HttpError + MatchDto option) option \<times> Service" where
  "getMatchDetails upstream matchId s =
    (case matchCache s matchId of
       Some cached \<Rightarrow> (cached, s)
     | None \<Rightarrow>
         (let (trace, matchPromise) = schedule (job Some None) (upstream matchId)
          in (matchPromise,
              s\<lparr>matchCache := (matchCache s)(matchId \<mapsto> matchPromise),
                requests := requests s @ replicate (length (filter (\<lambda>e. e = Request) trace)) matchId\<rparr>)))"

section \<open>Team maker (teamMaker.service.ts)\<close>

text \<open>The two \<open>for\<close> loops that push \<open>0..teamCount-1\<close> and then \<open>teamCount-1..0\<close>.\<close>

definition draftOrder :: "nat \<Rightarrow> nat list" where
  "draftOrder teamCount = [0..<teamCount] @ rev [0..<teamCount]"

definition emptyTeams :: "nat \<Rightarrow> Team list" where
  "emptyTeams teamCount =
    map (\<lambda>i. \<lparr>teamNumber = i + 1, players = [], avgTeamScore = 0,
               laneAssignment = (\<lambda>_. None)\<rparr>) [0..<teamCount]"

text \<open>
  The \<open>for (const player of sortedPlayers)\<close> loop.  \<open>draftOrder[i]\<close> or \<open>teams[i]\<close> out of
  range is \<open>undefined\<close>, and \<open>undefined.players\<close> throws a TypeError.
\<close>

fun draft :: "nat list \<Rightarrow> PlayerStats list \<Rightarrow> nat \<Rightarrow> Team list \<Rightarrow> error + Team list" where
  "draft draftOrder' [] draftIndex teams = Inr teams"
| "draft draftOrder' (player # rest) draftIndex teams =
    (if draftOrder' = [] then Inl TypeError
     else
       let teamIndex = draftOrder' ! (draftIndex mod length draftOrder') in
       if teamIndex < length teams
       then draft draftOrder' rest (draftIndex + 1)
              (teams[teamIndex :=
                 (teams ! teamIndex)\<lparr>players := players (teams ! teamIndex) @ [player]\<rparr>])
       else Inl TypeError)"

text \<open>
  \<open>findBestPlayerForLane\<close>: the first player with the strictly greatest count for the lane,
  or \<open>null\<close> when that count is 0 or there is no player.
\<close>

definition findBestPlayerForLane :: "PlayerStats list \<Rightarrow> lane \<Rightarrow> PlayerStats option" where
  "findBestPlayerForLane ps l =
    (case ps of
       [] \<Rightarrow> None
     | p0 # _ \<Rightarrow>
         let (bestPlayer, maxLaneCount) =
               foldl (\<lambda>(bestPlayer, maxLaneCount) player.
                        let laneCount' = count_of (laneDistribution player) l
                        in if laneCount' > maxLaneCount then (player, laneCount')
                           else (bestPlayer, maxLaneCount))
                     (p0, count_of (laneDistribution p0) l) ps
         in if maxLaneCount > 0 then Some bestPlayer else None)"

text \<open>
  \<open>indexOf\<close> and \<open>splice(index, 1)\<close>.  JavaScript compares the player objects by
  reference; here players are values and compared by their fields.  \<open>splice(-1, 1)\<close>, the
  case of an element that is not found, removes the last element.
\<close>

fun indexOf :: "'a list \<Rightarrow> 'a \<Rightarrow> nat option" where
  "indexOf [] x = None"
| "indexOf (y # ys) x = (if y = x then Some 0 else map_option Suc (indexOf ys x))"

definition splice1 :: "'a list \<Rightarrow> nat option \<Rightarrow> 'a list" where
  "splice1 xs index = (case index of None \<Rightarrow> butlast xs | Some i \<Rightarrow> take i xs @ drop (i + 1) xs)"

type_synonym assignment = "(lane \<Rightarrow> PlayerStats option) \<times> PlayerStats list"

text \<open>The bodies of the two passes over \<open>lanes\<close>; the state is \<open>(assignments, unassignedPlayers)\<close>.\<close>

fun assignBest :: "assignment \<Rightarrow> lane \<Rightarrow> assignment" where
  "assignBest (assignments, unassignedPlayers) l =
    (case findBestPlayerForLane unassignedPlayers l of
       None \<Rightarrow> (assignments, unassignedPlayers)
     | Some bestPlayer \<Rightarrow>
         (assignments(l := Some bestPlayer),
          splice1 unassignedPlayers (indexOf unassignedPlayers bestPlayer)))"

fun fillEmpty :: "assignment \<Rightarrow> lane \<Rightarrow> assignment" where
  "fillEmpty (assignments, unassignedPlayers) l =
    (if assignments l = None \<and> unassignedPlayers \<noteq> []
     then (assignments(l := Some (hd unassignedPlayers)), tl unassignedPlayers)
     else (assignments, unassignedPlayers))"

definition optimizeLaneDistribution :: "Team \<Rightarrow> Team" where
  "optimizeLaneDistribution team =
    (let firstPass = foldl assignBest (\<lambda>_. None, players team) lanes;
         secondPass = foldl fillEmpty firstPass lanes
     in team\<lparr>laneAssignment := fst secondPass\<rparr>)"

definition setAverage :: "Team \<Rightarrow> Team" where
  "setAverage team =
    (let totalScore = foldl (\<lambda>sum p. fl (sum + teamContribution p)) 0 (players team)
     in team\<lparr>avgTeamScore := round2 (fl (totalScore / real (length (players team))))\<rparr>)"

text \<open>
  \<open>divideIntoTeams\<close>.  \<open>[...players].sort((a, b) => b.teamContribution - a.teamContribution)\<close>
  is a stable sort in descending order of \<open>teamContribution\<close>.
\<close>

definition divideIntoTeams :: "PlayerStats list \<Rightarrow> error + Team list" where
  "divideIntoTeams ps =
    (if length ps < 10 \<or> length ps mod 5 \<noteq> 0 then Inl InvalidInput
     else
       let teamCount = length ps div 5;
           sortedPlayers = sort_key (\<lambda>p. - teamContribution p) ps
       in case draft (draftOrder teamCount) sortedPlayers 0 (emptyTeams teamCount) of
            Inl e \<Rightarrow> Inl e
          | Inr teams \<Rightarrow> Inr (map setAverage (map optimizeLaneDistribution teams)))"

definition calculateTeamBalance :: "MathLib \<Rightarrow> Team list \<Rightarrow> real" where
  "calculateTeamBalance math teams =
    (let avgScores = map avgTeamScore teams;
         mean = fl (foldl (\<lambda>sum score. fl (sum + score)) 0 avgScores / real (length avgScores));
         variance = fl (foldl (\<lambda>sum score. fl (sum + math_pow math (fl (score - mean)) 2))
                          0 avgScores
                        / real (length avgScores))
     in math_sqrt math variance)"

section \<open>The \<open>/divide-teams\<close> handler (api.routes.ts)\<close>

text \<open>
  The handler starts the analyses of all identities at once, and each analysis pushes its
  statistics onto \<open>playerStats\<close> when it completes (and pushes nothing when it throws).  So
  \<open>playerStats\<close> is in the order of completion, which the handler does not determine:
  \<open>completion\<close> lists the indices of the identities in the order in which their analyses
  complete, each index once.  \<open>validStats\<close> keeps the entries that are not \<open>null\<close>, which is
  all of them.  \<open>analyzePlayerStats\<close> has no throwing branch, so every outcome is
  \<open>Returned\<close>.  The first guard answers with status 400, the second throws; both are errors
  here.
\<close>

definition collectStats :: "PlayerStats awaited list \<Rightarrow> PlayerStats list" where
  "collectStats outcomes =
    List.map_filter (\<lambda>outcome. case outcome of Returned stats \<Rightarrow> Some stats | Threw \<Rightarrow> None) outcomes"

definition divideTeamsHandler ::
  "MathLib \<Rightarrow> Settled \<Rightarrow> nat list \<Rightarrow> (string \<times> string) list \<Rightarrow> error + Team list \<times> real" where
  "divideTeamsHandler math up completion identities =
    (if length identities < 10 \<or> length identities mod 5 \<noteq> 0 then Inl InvalidInput
     else
       let playerStats =
             collectStats (map (\<lambda>i. case identities ! i of (gameName', tagLine') \<Rightarrow>
                                  Returned (analyzePlayerStats math up gameName' tagLine')) completion);
           validStats = filter (\<lambda>stats. True) playerStats
       in if length validStats < 10 then Inl (InsufficientResults (length validStats))
          else case divideIntoTeams validStats of
                 Inl e \<Rightarrow> Inl e
               | Inr teams \<Rightarrow> Inr (teams, round2 (calculateTeamBalance math teams)))"

section \<open>Auxiliary definitions for the proofs\<close>

text \<open>The role of the player's row in a match, if it is one of the five keys.\<close>

definition roleIn :: "string \<Rightarrow> MatchDto \<Rightarrow> lane option" where
  "roleIn puuid' match =
    (case find (\<lambda>p. part_puuid p = puuid') (participants match) of
       None \<Rightarrow> None
     | Some participant \<Rightarrow>
         lane_of_key (if individualPosition participant \<noteq> []
                      then individualPosition participant else teamPosition participant))"

text \<open>
  The players that the draft loop hands to team \<open>t\<close> when it starts at \<open>draftIndex = i\<close>.
\<close>

fun picks :: "nat list \<Rightarrow> 'a list \<Rightarrow> nat \<Rightarrow> nat \<Rightarrow> 'a list" where
  "picks ord [] i t = []"
| "picks ord (p # ps) i t =
    (if ord ! (i mod length ord) = t then p # picks ord ps (Suc i) t else picks ord ps (Suc i) t)"

text \<open>The occupants of an assignment, in the order of \<open>lanes\<close>.\<close>

definition occupants :: "(lane \<Rightarrow> 'a option) \<Rightarrow> 'a list" where
  "occupants a = List.map_filter a lanes"

text \<open>
  The retry behaviour as the specification words it: a throttled answer is followed by a
  wait of the suggested duration (10 seconds without a hint) and the next request.
\<close>

definition throttled :: "'d response \<Rightarrow> bool" where
  "throttled r = (case r of Data _ \<Rightarrow> False | Failed error' \<Rightarrow> status error' = Some 429)"

definition backoff :: "'d response \<Rightarrow> nat" where
  "backoff r =
    (case r of
       Data _ \<Rightarrow> 0
     | Failed error' \<Rightarrow> (case retryAfter error' of Some seconds \<Rightarrow> seconds * 1000 | None \<Rightarrow> 10000))"

fun retryTrace :: "'d response list \<Rightarrow> event list" where
  "retryTrace [] = []"
| "retryTrace (r # rs) =
    (if throttled r then Request # Wait (backoff r) # retryTrace rs else [Request])"

section \<open>Example data\<close>

definition demoPlayer :: "string \<Rightarrow> real \<Rightarrow> nat \<Rightarrow> nat \<Rightarrow> PlayerStats" where
  "demoPlayer name score nTop nJungle =
    (zeroStats name ''KR1'' name None)
      \<lparr>laneDistribution := zeroCounts\<lparr>n_TOP := nTop, n_JUNGLE := nJungle\<rparr>, teamContribution := score\<rparr>"

definition tenPlayers :: "PlayerStats list" where
  "tenPlayers =
    [demoPlayer ''a'' 1200 3 0, demoPlayer ''b'' 2100 0 0, demoPlayer ''c'' 900 0 5,
     demoPlayer ''d'' 1500 1 1, demoPlayer ''e'' 1500 0 2, demoPlayer ''f'' 0 0 0,
     demoPlayer ''g'' 2800 4 0, demoPlayer ''h'' 1750 0 0, demoPlayer ''i'' 400 0 0,
     demoPlayer ''j'' 1310 2 2]"

definition demoParticipant :: "string \<Rightarrow> string \<Rightarrow> bool \<Rightarrow> ParticipantDto" where
  "demoParticipant individual team' won =
    \<lparr>part_puuid = ''puuid-Hide'', teamPosition = team', individualPosition = individual,
     kills = 3, deaths = 1, assists = 0, totalMinionsKilled = 150, neutralMinionsKilled = 45,
     visionScore = 30, win = won\<rparr>"

definition demoMatch :: "ParticipantDto \<Rightarrow> MatchDto" where
  "demoMatch p = \<lparr>gameDuration = 1800, participants = [p\<lparr>part_puuid := ''puuid-2''\<rparr>, p]\<rparr>"

text \<open>A won match of 2000 seconds with 0 kills, 16 deaths, 1 assist and 7 minions.\<close>

definition feedMatch :: MatchDto where
  "feedMatch =
    \<lparr>gameDuration = 2000,
     participants =
       [\<lparr>part_puuid = ''puuid-Feed'', teamPosition = ''TOP'', individualPosition = ''TOP'',
         kills = 0, deaths = 16, assists = 1, totalMinionsKilled = 7, neutralMinionsKilled = 0,
         visionScore = 0, win = True\<rparr>]\<rparr>"

text \<open>An engine whose \<open>Math\<close> functions are correctly rounded.\<close>

definition demoMath :: MathLib where
  "demoMath = \<lparr>math_log10 = (\<lambda>x. fl (log 10 x)), math_pow = (\<lambda>x y. fl (x powr y)),
               math_sqrt = (\<lambda>x. fl (sqrt x))\<rparr>"

text \<open>
  An upstream that knows every name but \<open>Nobody\<close> (not found) and \<open>Busy\<close> (the lookup
  throws); \<open>Hide\<close> has four ranked matches of which three can be fetched, \<open>Feed\<close> has one,
  and nobody else has any.
\<close>

definition demoUpstream :: Settled where
  "demoUpstream =
    \<lparr>accountByRiotId = (\<lambda>gameName' tagLine'.
        if gameName' = ''Nobody'' then Returned None
        else if gameName' = ''Busy'' then Threw
        else Returned (Some \<lparr>acc_puuid = ''puuid-'' @ gameName',
                               acc_gameName = gameName', acc_tagLine = tagLine'\<rparr>)),
     leagueEntriesByPuuid = (\<lambda>_. Returned []),
     matchHistory = (\<lambda>puuid'.
        if puuid' = ''puuid-Hide'' then Returned [''KR_1'', ''KR_2'', ''KR_3'', ''KR_4'']
        else if puuid' = ''puuid-Feed'' then Returned [''KR_5'']
        else Returned []),
     matchDetails = (\<lambda>matchId.
        if matchId = ''KR_1'' then Returned (Some (demoMatch (demoParticipant ''UTILITY'' ''JUNGLE'' True)))
        else if matchId = ''KR_2'' then Returned (Some (demoMatch (demoParticipant [] ''JUNGLE'' False)))
        else if matchId = ''KR_3'' then Returned (Some (demoMatch (demoParticipant ''Invalid'' ''TOP'' False)))
        else if matchId = ''KR_5'' then Returned (Some feedMatch)
        else Returned None)\<rparr>"

definition tenIdentities :: "(string \<times> string) list" where
  "tenIdentities =
    [(''Hide'', ''KR1''), (''Nobody'', ''KR1''), (''Ari'', ''KR1''), (''Bo'', ''KR1''),
     (''Busy'', ''KR1''), (''Cy'', ''KR1''), (''Di'', ''KR1''), (''Eve'', ''KR1''),
     (''Fox'', ''KR1''), (''Gil'', ''KR1'')]"

text \<open>The analyses of \<open>Hide\<close> complete last, those of the others in the order of the list.\<close>

definition hideLast :: "nat list" where
  "hideLast = [1, 2, 3, 4, 5, 6, 7, 8, 9, 0]"

definition lastFirst :: "nat list" where
  "lastFirst = [9, 8, 7, 6, 5, 4, 3, 2, 1, 0]"

definition demoMatches :: "MatchDto list" where
  "demoMatches =
    [demoMatch (demoParticipant ''UTILITY'' ''JUNGLE'' True),
     demoMatch (demoParticipant [] ''JUNGLE'' False),
     demoMatch (demoParticipant ''Invalid'' ''TOP'' False)]"

text \<open>The accumulators after the three fetched matches of \<open>Hide\<close>, and after the match of \<open>Feed\<close>.\<close>

definition demoTotals :: Totals where
  "demoTotals =
    \<lparr>totalKills = 9, totalDeaths = 3, totalAssists = 0, totalVSPM = 3, winCount = 1,
     totalCSPM = 39 / 2,
     laneCount = \<lparr>n_TOP = 0, n_JUNGLE = 1, n_MIDDLE = 0, n_BOTTOM = 0, n_UTILITY = 1\<rparr>\<rparr>"

definition feedTotals :: Totals where
  "feedTotals =
    \<lparr>totalKills = 0, totalDeaths = 16, totalAssists = 1, totalVSPM = 0, winCount = 1,
     totalCSPM = 7566047373982433 / 36028797018963968,
     laneCount = \<lparr>n_TOP = 1, n_JUNGLE = 0, n_MIDDLE = 0, n_BOTTOM = 0, n_UTILITY = 0\<rparr>\<rparr>"

definition notFound :: HttpError where
  "notFound = \<lparr>status = Some 404, retryAfter = None\<rparr>"

definition tooManyRequests :: "nat option \<Rightarrow> HttpError" where
  "tooManyRequests hint = \<lparr>status = Some 429, retryAfter = hint\<rparr>"

definition emptyService :: Service where
  "emptyService = \<lparr>matchCache = Map.empty, requests = []\<rparr>"

definition ironFour :: LeagueEntry where
  "ironFour = \<lparr>queueType = ''RANKED_SOLO_5x5'', tier = ''IRON'', rank = ''IV'',
               leaguePoints = 0, wins = 0, losses = 0\<rparr>"

section \<open>Tier score: what the code computes\<close>

lemma calculateTierScore_unranked: "calculateTierScore None = 1200"
  by (simp add: calculateTierScore_def)

lemma calculateTierScore_apex:
  "tier r \<in> {''MASTER'', ''GRANDMASTER'', ''CHALLENGER''} \<Longrightarrow>
   calculateTierScore (Some r) = 2800 + leaguePoints r"
  by (auto simp: calculateTierScore_def TIER_SCORES_def js_or_def)

lemma calculateTierScore_sub_apex:
  assumes "(tier r, b) \<in> {(''BRONZE'', 400), (''SILVER'', 800), (''GOLD'', 1200),
             (''PLATINUM'', 1600), (''EMERALD'', 2000), (''DIAMOND'', 2400)}"
    and "(rank r, d) \<in> {(''IV'', 0), (''III'', 100), (''II'', 200), (''I'', 300)}"
  shows "calculateTierScore (Some r) = b + d + leaguePoints r"
  using assms
  by (auto simp: calculateTierScore_def TIER_SCORES_def RANK_SCORES_def js_or_def)

lemma calculateTierScore_IRON:
  "tier r = ''IRON'' \<Longrightarrow>
   calculateTierScore (Some r) = 1200 + js_or (map_of RANK_SCORES (rank r)) 0 + leaguePoints r"
  by (simp add: calculateTierScore_def TIER_SCORES_def js_or_def)

text \<open>
  C1.  The claim gives IRON the base 0: an IRON IV entry with 0 league points should
  score 0.  The table entry \<open>IRON: 0\<close> is falsy, so \<open>TIER_SCORES[tier] || 1200\<close> replaces it
  by the fallback 1200 meant for unknown tiers: the code returns 1200 for IRON IV, 0 LP,
  the same score as GOLD IV, 0 LP.
\<close>

theorem calculateTierScore_IRON_falls_back:
  "calculateTierScore (Some ironFour) = 1200
   \<and> calculateTierScore (Some ironFour) = calculateTierScore (Some (ironFour\<lparr>tier := ''GOLD''\<rparr>))
   \<and> map_of TIER_SCORES ''IRON'' = Some 0"
  by (simp add: calculateTierScore_def TIER_SCORES_def RANK_SCORES_def js_or_def ironFour_def)


section \<open>The preferred lane is the first maximum\<close>

lemma first_max_foldl:
  fixes f :: "'a \<Rightarrow> nat"
  defines "g \<equiv> (\<lambda>a b. if f a \<ge> f b then a else b)"
  shows "\<exists>ys zs. x # xs = ys @ foldl g x xs # zs
            \<and> (\<forall>y\<in>set ys. f y < f (foldl g x xs)) \<and> (\<forall>z\<in>set zs. f z \<le> f (foldl g x xs))"
proof (induction xs arbitrary: x)
  case Nil
  show ?case by (intro exI[of _ "[]"]) simp
next
  case (Cons y xs)
  show ?case
  proof (cases "f x \<ge> f y")
    case True
    then have gx: "foldl g x (y # xs) = foldl g x xs" by (simp add: g_def)
    define r where "r = foldl g x xs"
    from Cons[of x] obtain ys zs where h: "x # xs = ys @ r # zs"
      "\<forall>y\<in>set ys. f y < f r" "\<forall>z\<in>set zs. f z \<le> f r" unfolding r_def by blast
    show ?thesis
    proof (cases ys)
      case Nil
      with h have e: "r = x" "zs = xs" by simp_all
      show ?thesis unfolding gx r_def[symmetric]
        apply (rule exI[of _ "[]"])
        apply (rule exI[of _ "y # xs"])
        using e h(3) True by simp
    next
      case (Cons a ys')
      with h have e: "a = x" "xs = ys' @ r # zs" by simp_all
      have "f x < f r" using h(2) Cons e by simp
      then show ?thesis unfolding gx r_def[symmetric]
        apply -
        apply (rule exI[of _ "x # y # ys'"])
        apply (rule exI[of _ "zs"])
        using e h(2,3) True Cons by simp
    qed
  next
    case False
    then have gx: "foldl g x (y # xs) = foldl g y xs" by (simp add: g_def)
    define r where "r = foldl g y xs"
    from Cons[of y] obtain ys zs where h: "y # xs = ys @ r # zs"
      "\<forall>y\<in>set ys. f y < f r" "\<forall>z\<in>set zs. f z \<le> f r" unfolding r_def by blast
    have "f y \<le> f r"
    proof (cases ys)
      case Nil
      with h show ?thesis by simp
    next
      case (Cons a ys')
      with h have "a = y" by simp
      with h(2) Cons show ?thesis by simp
    qed
    with False have "f x < f r" by simp
    then show ?thesis unfolding gx r_def[symmetric]
      apply -
      apply (rule exI[of _ "x # ys"])
      apply (rule exI[of _ "zs"])
      using h by simp
  qed
qed

lemma preferredLane_of_first_max: "\<exists>ys zs. lanes = ys @ preferredLane_of c # zs
            \<and> (\<forall>y\<in>set ys. count_of c y < count_of c (preferredLane_of c)) \<and> (\<forall>z\<in>set zs. count_of c z \<le> count_of c (preferredLane_of c))"
  using first_max_foldl[of TOP "[JUNGLE, MIDDLE, BOTTOM, UTILITY]" "count_of c"]
  unfolding preferredLane_of_def lanes_def list.sel by blast

section \<open>The analyzer on the example upstream\<close>

text \<open>Evaluating \<open>fl\<close> on a given number.\<close>

lemmas fl_eval = fl_def pow2_def Let_def expo_up.simps expo_down.simps

lemma fl_small:
  "fl 0 = 0" "fl 1 = 1" "fl (1 / 2) = 1 / 2" "fl 3 = 3" "fl 5 = 5" "fl (13 / 2) = 13 / 2"
  "fl 65 = 65" "fl 100 = 100" "fl 300 = 300"
  by (simp_all add: fl_eval)

lemma demo_account: "resolveAccount demoUpstream ''Hide'' ''KR1''
   = Some \<lparr>acc_puuid = ''puuid-Hide'', acc_gameName = ''Hide'', acc_tagLine = ''KR1''\<rparr>"
  by (simp add: resolveAccount_def demoUpstream_def)

lemma demo_rank: "rankInfo_of demoUpstream ''puuid-Hide'' = None"
  by (simp add: rankInfo_of_def demoUpstream_def)

lemma demo_ids: "matchIds_of demoUpstream ''puuid-Hide'' = [''KR_1'', ''KR_2'', ''KR_3'', ''KR_4'']"
  by (simp add: matchIds_of_def demoUpstream_def)

lemma demo_matches: "fetchedMatches demoUpstream [''KR_1'', ''KR_2'', ''KR_3'', ''KR_4''] = demoMatches"
  by (simp add: fetchedMatches_def demoUpstream_def map_filter_simps demoMatches_def)

lemma demo_length: "length demoMatches = 3" "demoMatches \<noteq> []"
  by (simp_all add: demoMatches_def)

lemma demo_totals: "aggregate ''puuid-Hide'' demoMatches = demoTotals"
  by (simp add: demoMatches_def aggregate_def accumulate_def demoMatch_def demoParticipant_def
      zeroTotals_def zeroCounts_def lane_of_key_def demoTotals_def fl_eval)

lemma demoTotals_fields:
  "totalKills demoTotals = 9" "totalDeaths demoTotals = 3" "totalAssists demoTotals = 0"
  "totalVSPM demoTotals = 3" "totalCSPM demoTotals = 39 / 2" "winCount demoTotals = 1"
  "laneCount demoTotals = \<lparr>n_TOP = 0, n_JUNGLE = 1, n_MIDDLE = 0, n_BOTTOM = 0, n_UTILITY = 1\<rparr>"
  by (simp_all add: demoTotals_def)

text \<open>
  The locals of the analysis of \<open>Hide\<close>: one win in three matches gives the win rate
  33.33333333333333, the bonus -83.33333333333336 and the final score 1116.6666666666667,
  as doubles, and the published values 33.33 and 1116.67.
\<close>

lemma demo_locals:
  "kda_of demoTotals 3 = 3"
  "recentWinRate demoTotals 3 = 2345624805922133 / 70368744177664"
  "winRateBonus (2345624805922133 / 70368744177664) = - (5864062014805335 / 70368744177664)"
  "kdaBonus 3 = 0"
  "statsBonus JUNGLE 1 (13 / 2) = 0"
  "preferredLane_of (laneCount demoTotals) = JUNGLE"
  by (simp_all add: demoTotals_fields kda_of_def recentWinRate_def winRateBonus_def kdaBonus_def
      statsBonus_def preferredLane_of_def lanes_def fl_eval)

lemma demo_finalScore:
  "finalScore demoMath None demoTotals 3 = 4911151937399467 / 4398046511104"
  unfolding finalScore_def demo_locals
  by (simp add: demoTotals_fields calculateTierScore_def activityBonus_def totalSeasonGames_def
      demo_locals fl_eval)

lemma demo_round:
  "round2 0 = 0" "round2 1 = 1" "round2 3 = 3"
  "round2 (2345624805922133 / 70368744177664) = fl (3333 / 100)"
  "round2 (4911151937399467 / 4398046511104) = fl (111667 / 100)"
  by (simp_all add: round2_def js_round_def fl_eval)

lemma demo_stats: "analyzePlayerStats demoMath demoUpstream ''Hide'' ''KR1'' =
   \<lparr>gameName = ''Hide'', tagLine = ''KR1'', puuid = ''puuid-Hide'',
     avgKills = 3, avgDeaths = 1, avgAssists = 0, avgCS = 13/2, kda = 3, winRate = fl (3333/100),
     preferredLane = JUNGLE,
     laneDistribution = \<lparr>n_TOP = 0, n_JUNGLE = 1, n_MIDDLE = 0, n_BOTTOM = 0, n_UTILITY = 1\<rparr>,
     totalGames = 0, teamContribution = fl (111667/100), tierInfo = None\<rparr>"
  by (simp add: analyzePlayerStats_def Let_def demo_account demo_rank demo_ids demo_matches
      demo_length demo_totals demoTotals_fields demo_locals demo_finalScore demo_round fl_small
      js_round_def tierInfo_of_def totalSeasonGames_def preferredLane_of_def lanes_def)

text \<open>
  The analysis of \<open>Feed\<close>: the final score is the double just below 1298.975, so the
  published value is 1298.97.
\<close>

lemma feed_facts:
  "resolveAccount demoUpstream ''Feed'' ''KR1''
     = Some \<lparr>acc_puuid = ''puuid-Feed'', acc_gameName = ''Feed'', acc_tagLine = ''KR1''\<rparr>"
  "rankInfo_of demoUpstream ''puuid-Feed'' = None"
  "matchIds_of demoUpstream ''puuid-Feed'' = [''KR_5'']"
  "fetchedMatches demoUpstream [''KR_5''] = [feedMatch]"
  by (simp_all add: resolveAccount_def rankInfo_of_def matchIds_of_def fetchedMatches_def
      demoUpstream_def map_filter_simps)

lemma feed_totals: "aggregate ''puuid-Feed'' [feedMatch] = feedTotals"
  by (simp add: aggregate_def accumulate_def feedMatch_def zeroTotals_def zeroCounts_def
      lane_of_key_def feedTotals_def fl_eval)

lemma feedTotals_fields:
  "totalKills feedTotals = 0" "totalDeaths feedTotals = 16" "totalAssists feedTotals = 1"
  "totalVSPM feedTotals = 0" "totalCSPM feedTotals = 7566047373982433 / 36028797018963968"
  "winCount feedTotals = 1"
  "laneCount feedTotals = \<lparr>n_TOP = 1, n_JUNGLE = 0, n_MIDDLE = 0, n_BOTTOM = 0, n_UTILITY = 0\<rparr>"
  by (simp_all add: feedTotals_def)

lemma feed_locals:
  "kda_of feedTotals 1 = 1 / 16"
  "recentWinRate feedTotals 1 = 100"
  "kdaBonus (1 / 16) = - (705 / 8)"
  "winRateBonus 100 = 250"
  "statsBonus TOP 0 (7566047373982433 / 36028797018963968)
     = - (8852388017550131 / 140737488355328)"
  "preferredLane_of (laneCount feedTotals) = TOP"
  by (simp_all add: feedTotals_fields kda_of_def recentWinRate_def winRateBonus_def kdaBonus_def
      statsBonus_def preferredLane_of_def lanes_def fl_eval)

lemma feed_finalScore:
  "finalScore demoMath None feedTotals 1 = 2856476233380659 / 2199023255552"
  unfolding finalScore_def feed_locals
  by (simp add: feedTotals_fields calculateTierScore_def activityBonus_def totalSeasonGames_def
      feed_locals fl_eval)

lemma feed_published:
  "teamContribution (analyzePlayerStats demoMath demoUpstream ''Feed'' ''KR1'') = fl (129897 / 100)"
proof -
  have r: "round2 (2856476233380659 / 2199023255552) = fl (129897 / 100)"
    by (simp add: round2_def js_round_def fl_eval)
  note f = feed_finalScore[unfolded One_nat_def]
  show ?thesis
    by (simp add: analyzePlayerStats_def Let_def feed_facts feed_totals f r)
qed

lemma count_of_increment:
  "count_of (increment c l') l = count_of c l + (if l = l' then 1 else 0)"
  by (cases l; cases l') simp_all

lemma laneCount_accumulate:
  "laneCount (accumulate puuid' t match)
    = (case roleIn puuid' match of None \<Rightarrow> laneCount t | Some l \<Rightarrow> increment (laneCount t) l)"
  by (simp add: accumulate_def roleIn_def Let_def split: option.splits)

lemma laneCount_foldl:
  "count_of (laneCount (foldl (accumulate puuid') t matches)) l
    = count_of (laneCount t) l + length (filter (\<lambda>m. roleIn puuid' m = Some l) matches)"
proof (induction matches arbitrary: t)
  case Nil
  show ?case by simp
next
  case (Cons m ms)
  show ?case
    by (simp add: Cons.IH laneCount_accumulate count_of_increment split: option.splits)
qed

lemma laneCount_aggregate:
  "count_of (laneCount (aggregate puuid' matches)) l
    = length (filter (\<lambda>m. roleIn puuid' m = Some l) matches)"
proof -
  have z: "count_of (laneCount zeroTotals) l = 0"
    by (cases l) (simp_all add: zeroTotals_def zeroCounts_def)
  show ?thesis unfolding aggregate_def laneCount_foldl z by simp
qed

text \<open>
  C5.  When the account lookup yields no account (it returns \<open>null\<close>, or it throws), the
  analyzer returns the zero-valued statistics: \<open>puuid\<close> is \<open>'unknown'\<close>, the averages, \<open>kda\<close>,
  \<open>winRate\<close> and \<open>totalGames\<close> are 0 and \<open>teamContribution\<close> is 0.  It does not raise: the
  function has no throwing branch.
\<close>

theorem analyzePlayerStats_unresolved:
  assumes "accountByRiotId up gameName' tagLine' = Returned None
           \<or> accountByRiotId up gameName' tagLine' = Threw"
  shows "analyzePlayerStats math up gameName' tagLine' =
    \<lparr>gameName = gameName', tagLine = tagLine', puuid = ''unknown'',
     avgKills = 0, avgDeaths = 0, avgAssists = 0, avgCS = 0, kda = 0, winRate = 0,
     preferredLane = TOP,
     laneDistribution = \<lparr>n_TOP = 0, n_JUNGLE = 0, n_MIDDLE = 0, n_BOTTOM = 0, n_UTILITY = 0\<rparr>,
     totalGames = 0, teamContribution = 0, tierInfo = None\<rparr>"
  using assms
  by (auto simp: analyzePlayerStats_def resolveAccount_def zeroStats_def zeroCounts_def)

theorem analyzePlayerStats_unresolved_witness:
  "puuid (analyzePlayerStats demoMath demoUpstream ''Nobody'' ''KR1'') = ''unknown''
   \<and> teamContribution (analyzePlayerStats demoMath demoUpstream ''Nobody'' ''KR1'') = 0
   \<and> totalGames (analyzePlayerStats demoMath demoUpstream ''Nobody'' ''KR1'') = 0
   \<and> kda (analyzePlayerStats demoMath demoUpstream ''Busy'' ''KR1'') = 0
   \<and> winRate (analyzePlayerStats demoMath demoUpstream ''Busy'' ''KR1'') = 0
   \<and> puuid (analyzePlayerStats demoMath demoUpstream ''Busy'' ''KR1'') = ''unknown''"
  using analyzePlayerStats_unresolved[where up = demoUpstream and gameName' = "''Nobody''"
      and tagLine' = "''KR1''" and math = demoMath]
    analyzePlayerStats_unresolved[where up = demoUpstream and gameName' = "''Busy''"
      and tagLine' = "''KR1''" and math = demoMath]
  by (simp add: demoUpstream_def)

text \<open>
  C8.  For a resolved account with at least one fetched match, the published lane counts
  are the numbers of fetched matches in which the player's row carries that role, and
  \<open>preferredLane\<close> is the first role of the enumeration TOP, JUNGLE, MIDDLE, BOTTOM, UTILITY
  with the greatest count: every role before it has strictly fewer matches, every role
  after it at most as many.
\<close>

theorem preferredLane_first_maximum:
  fixes math :: MathLib
  assumes "accountByRiotId up gameName' tagLine' = Returned (Some account)"
    and "fetchedMatches up (matchIds_of up (acc_puuid account)) \<noteq> []"
  defines "matches \<equiv> fetchedMatches up (matchIds_of up (acc_puuid account))"
  defines "stats \<equiv> analyzePlayerStats math up gameName' tagLine'"
  defines "games \<equiv> (\<lambda>l. length (filter (\<lambda>m. roleIn (acc_puuid account) m = Some l) matches))"
  shows "(\<forall>l. count_of (laneDistribution stats) l = games l)
       \<and> (\<exists>before after. lanes = before @ preferredLane stats # after
             \<and> (\<forall>l\<in>set before. games l < games (preferredLane stats))
             \<and> (\<forall>l\<in>set after. games l \<le> games (preferredLane stats)))"
proof -
  have ne: "matchIds_of up (acc_puuid account) \<noteq> []"
    using assms(2) by (auto simp: fetchedMatches_def map_filter_simps)
  define c where "c = laneCount (aggregate (acc_puuid account) matches)"
  have ld: "laneDistribution stats = c" and pl: "preferredLane stats = preferredLane_of c"
    using assms(1,2) ne
    by (simp_all add: stats_def analyzePlayerStats_def resolveAccount_def Let_def c_def matches_def)
  have g: "count_of c l = games l" for l
    by (simp add: c_def games_def laneCount_aggregate)
  from preferredLane_of_first_max[of c] show ?thesis unfolding ld pl g by simp
qed

theorem preferredLane_first_maximum_witness:
  "preferredLane (analyzePlayerStats demoMath demoUpstream ''Hide'' ''KR1'') = JUNGLE
   \<and> map (count_of (laneDistribution (analyzePlayerStats demoMath demoUpstream ''Hide'' ''KR1''))) lanes
       = [0, 1, 0, 0, 1]
   \<and> (\<exists>before after. lanes = before @ JUNGLE # after
         \<and> (\<forall>l\<in>set before. length (filter (\<lambda>m. roleIn ''puuid-Hide'' m = Some l) demoMatches) < 1)
         \<and> (\<forall>l\<in>set after. length (filter (\<lambda>m. roleIn ''puuid-Hide'' m = Some l) demoMatches) \<le> 1))"
proof -
  have a: "accountByRiotId demoUpstream ''Hide'' ''KR1''
     = Returned (Some \<lparr>acc_puuid = ''puuid-Hide'', acc_gameName = ''Hide'', acc_tagLine = ''KR1''\<rparr>)"
    by (simp add: demoUpstream_def)
  have m: "fetchedMatches demoUpstream (matchIds_of demoUpstream (acc_puuid
       \<lparr>acc_puuid = ''puuid-Hide'', acc_gameName = ''Hide'', acc_tagLine = ''KR1''\<rparr>)) = demoMatches"
    by (simp add: demo_ids demo_matches)
  have j: "length (filter (\<lambda>m. roleIn ''puuid-Hide'' m = Some JUNGLE) demoMatches) = 1"
    by (simp add: demoMatches_def roleIn_def demoMatch_def demoParticipant_def lane_of_key_def)
  have ne: "fetchedMatches demoUpstream (matchIds_of demoUpstream (acc_puuid
       \<lparr>acc_puuid = ''puuid-Hide'', acc_gameName = ''Hide'', acc_tagLine = ''KR1''\<rparr>)) \<noteq> []"
    unfolding m by (simp add: demo_length)
  from preferredLane_first_maximum[OF a ne, where math = demoMath] show ?thesis
    unfolding m by (simp add: demo_stats lanes_def j)
qed

text \<open>
  C3.  For a resolved account with at least one fetched match the score components are,
  each operation rounded to a double as JavaScript computes it: \<open>kdaBonus\<close> is
  \<open>(kda - 3.0) * 30\<close> cut off at -150 and +150 (and so always within \<open>[-150, 150]\<close>),
  \<open>winRateBonus\<close> is \<open>(winRate - 50) * 5\<close>, the role bonus is
  \<open>(avgVisionPerMinute - 2.0) * 20\<close> for the preferred lane UTILITY and
  \<open>(avgCSPerMinute - 6.5) * 10\<close> otherwise, all on the unrounded \<open>kda\<close>, win rate and
  per-minute averages.  The local \<open>finalScore\<close> is the sum of tier score and the four
  bonuses, added from the left, and the published \<open>teamContribution\<close> is that sum rounded to
  two decimals, \<open>Math.round(finalScore * 100) / 100\<close>.  KDA 3.0, win rate 50 and 7.0 CS per
  minute on a lane other than UTILITY give the bonuses 0, 0 and 5.
\<close>

theorem analyzePlayerStats_score:
  fixes math :: MathLib
  assumes "accountByRiotId up gameName' tagLine' = Returned (Some account)"
    and "fetchedMatches up (matchIds_of up (acc_puuid account)) \<noteq> []"
  defines "rankInfo \<equiv> rankInfo_of up (acc_puuid account)"
  defines "matches \<equiv> fetchedMatches up (matchIds_of up (acc_puuid account))"
  defines "t \<equiv> aggregate (acc_puuid account) matches"
  defines "stats \<equiv> analyzePlayerStats math up gameName' tagLine'"
  defines "kda' \<equiv> kda_of t (length matches)"
  defines "winRate' \<equiv> recentWinRate t (length matches)"
  defines "avgCSPM \<equiv> fl (totalCSPM t / real (length matches))"
  defines "avgVSPM \<equiv> fl (totalVSPM t / real (length matches))"
  defines "tierScore \<equiv> real_of_int (calculateTierScore rankInfo)"
  defines "kdaRaw \<equiv> fl (fl (kda' - 3) * 30)"
  defines "kdaB \<equiv> (if kdaRaw < - 150 then - 150 else if 150 < kdaRaw then 150 else kdaRaw)"
  defines "winB \<equiv> fl (fl (winRate' - 50) * 5)"
  defines "roleB \<equiv> (if preferredLane stats = UTILITY then fl (fl (avgVSPM - 2) * 20)
                      else fl (fl (avgCSPM - 13 / 2) * 10))"
  defines "summed \<equiv> fl (fl (fl (fl (tierScore + kdaB) + winB) + activityBonus math rankInfo) + roleB)"
  shows "kdaBonus kda' = kdaB \<and> - 150 \<le> kdaB \<and> kdaB \<le> 150
       \<and> winRateBonus winRate' = winB
       \<and> statsBonus (preferredLane stats) avgVSPM avgCSPM = roleB
       \<and> finalScore math rankInfo t (length matches) = summed
       \<and> teamContribution stats = fl (js_round (fl (summed * 100)) / 100)
       \<and> kdaBonus 3 = 0 \<and> winRateBonus 50 = 0
       \<and> (\<forall>lane' v. lane' \<noteq> UTILITY \<longrightarrow> statsBonus lane' v 7 = 5)"
proof -
  have ne: "matchIds_of up (acc_puuid account) \<noteq> []"
    using assms(2) by (auto simp: fetchedMatches_def map_filter_simps)
  have pl: "preferredLane stats = preferredLane_of (laneCount t)"
    and tc: "teamContribution stats = round2 (finalScore math rankInfo t (length matches))"
    using assms(1,2) ne
    by (simp_all add: stats_def analyzePlayerStats_def resolveAccount_def Let_def t_def
        matches_def rankInfo_def)
  have k: "kdaBonus kda' = kdaB" by (simp add: kdaBonus_def kdaB_def kdaRaw_def)
  have kb: "- 150 \<le> kdaB" "kdaB \<le> 150" by (simp_all add: kdaB_def)
  have w: "winRateBonus winRate' = winB" by (simp add: winRateBonus_def winB_def)
  have r: "statsBonus (preferredLane stats) avgVSPM avgCSPM = roleB"
    by (simp add: statsBonus_def roleB_def)
  have f: "finalScore math rankInfo t (length matches) = summed"
    unfolding finalScore_def summed_def pl[symmetric] k[symmetric] w[symmetric] r[symmetric]
    by (simp add: tierScore_def kda'_def winRate'_def avgVSPM_def avgCSPM_def)
  have tc': "teamContribution stats = fl (js_round (fl (summed * 100)) / 100)"
    unfolding tc f round2_def ..
  have e1: "kdaBonus 3 = 0" "winRateBonus 50 = 0"
    by (simp_all add: kdaBonus_def winRateBonus_def fl_small)
  have e2: "\<forall>lane' v. lane' \<noteq> UTILITY \<longrightarrow> statsBonus lane' v 7 = 5"
    by (simp add: statsBonus_def fl_small)
  from k kb w r f tc' e1 e2 show ?thesis by (intro conjI)
qed

theorem analyzePlayerStats_score_witness:
  "teamContribution (analyzePlayerStats demoMath demoUpstream ''Hide'' ''KR1'')
     = 613895824694313 / 549755813888
   \<and> finalScore demoMath None demoTotals 3 = 4911151937399467 / 4398046511104
   \<and> kdaBonus (kda_of demoTotals 3) = 0
   \<and> winRateBonus (recentWinRate demoTotals 3) = - (5864062014805335 / 70368744177664)
   \<and> statsBonus JUNGLE 1 (13 / 2) = 0"
proof -
  have a: "accountByRiotId demoUpstream ''Hide'' ''KR1''
     = Returned (Some \<lparr>acc_puuid = ''puuid-Hide'', acc_gameName = ''Hide'', acc_tagLine = ''KR1''\<rparr>)"
    by (simp add: demoUpstream_def)
  have m: "fetchedMatches demoUpstream (matchIds_of demoUpstream (acc_puuid
       \<lparr>acc_puuid = ''puuid-Hide'', acc_gameName = ''Hide'', acc_tagLine = ''KR1''\<rparr>)) = demoMatches"
    by (simp add: demo_ids demo_matches)
  have ne: "fetchedMatches demoUpstream (matchIds_of demoUpstream (acc_puuid
       \<lparr>acc_puuid = ''puuid-Hide'', acc_gameName = ''Hide'', acc_tagLine = ''KR1''\<rparr>)) \<noteq> []"
    unfolding m by (simp add: demo_length)
  have p: "fl (111667 / 100) = 613895824694313 / 549755813888" by (simp add: fl_eval)
  from analyzePlayerStats_score[OF a ne, where math = demoMath] show ?thesis
    unfolding m
    by (simp add: demo_stats demo_rank demo_length demo_totals demo_locals demo_finalScore p)
qed

text \<open>
  The published \<open>teamContribution\<close> is not the sum itself: one win in three matches gives
  the sum 1116.6666666666667 as the code adds it (\<open>3350 / 3\<close> added exactly) and the
  published value 1116.67.
\<close>

theorem teamContribution_not_the_sum:
  "teamContribution (analyzePlayerStats demoMath demoUpstream ''Hide'' ''KR1'')
     = 613895824694313 / 549755813888
   \<and> finalScore demoMath (rankInfo_of demoUpstream ''puuid-Hide'')
        (aggregate ''puuid-Hide'' demoMatches) (length demoMatches)
     = 4911151937399467 / 4398046511104
   \<and> teamContribution (analyzePlayerStats demoMath demoUpstream ''Hide'' ''KR1'')
      \<noteq> finalScore demoMath (rankInfo_of demoUpstream ''puuid-Hide'')
          (aggregate ''puuid-Hide'' demoMatches) (length demoMatches)
   \<and> teamContribution (analyzePlayerStats demoMath demoUpstream ''Hide'' ''KR1'')
      \<noteq> real_of_int (calculateTierScore (rankInfo_of demoUpstream ''puuid-Hide''))
       + kdaBonus (kda_of (aggregate ''puuid-Hide'' demoMatches) (length demoMatches))
       + winRateBonus (recentWinRate (aggregate ''puuid-Hide'' demoMatches) (length demoMatches))
       + activityBonus demoMath (rankInfo_of demoUpstream ''puuid-Hide'')
       + statsBonus (preferredLane (analyzePlayerStats demoMath demoUpstream ''Hide'' ''KR1''))
           (fl (totalVSPM (aggregate ''puuid-Hide'' demoMatches) / real (length demoMatches)))
           (fl (totalCSPM (aggregate ''puuid-Hide'' demoMatches) / real (length demoMatches)))"
proof -
  have p: "fl (111667 / 100) = 613895824694313 / 549755813888" by (simp add: fl_eval)
  show ?thesis
    by (simp add: demo_stats demo_rank demo_length demo_totals demo_finalScore demo_locals
        demoTotals_fields calculateTierScore_def activityBonus_def totalSeasonGames_def
        fl_small p)
qed

text \<open>
  With exact arithmetic the sum for \<open>Feed\<close> would be 1298.975 and round to 1298.98; the double
  sum lies just below and the published value is 1298.97.
\<close>

lemma feed_rounds_down:
  "finalScore demoMath None feedTotals 1 < 1298975 / 1000"
  "teamContribution (analyzePlayerStats demoMath demoUpstream ''Feed'' ''KR1'') = fl (129897 / 100)"
  "fl (129897 / 100) < 129898 / 100"
proof -
  show "finalScore demoMath None feedTotals 1 < 1298975 / 1000"
    unfolding feed_finalScore by simp
  show "teamContribution (analyzePlayerStats demoMath demoUpstream ''Feed'' ''KR1'')
      = fl (129897 / 100)"
    by (rule feed_published)
  show "fl (129897 / 100) < 129898 / 100" by (simp add: fl_eval)
qed

section \<open>Retries and the match cache\<close>

lemma schedule_job:
  "fst (schedule (job wrap fallback) rs) = retryTrace rs
   \<and> snd (schedule (job wrap fallback) rs)
      = (case dropWhile throttled rs of
           [] \<Rightarrow> None
         | Data d # _ \<Rightarrow> Some (Inr (wrap d))
         | Failed _ # _ \<Rightarrow> Some (Inr fallback))"
proof (induction rs)
  case Nil
  show ?case by simp
next
  case (Cons r rs)
  show ?case
  proof (cases r)
    case (Data d)
    then show ?thesis by (simp add: job_def throttled_def)
  next
    case (Failed e)
    show ?thesis
    proof (cases "status e = Some 429")
      case True
      with Failed Cons show ?thesis
        by (simp add: job_def throttled_def onFailed_def backoff_def split_beta)
    next
      case False
      with Failed show ?thesis by (simp add: job_def throttled_def)
    qed
  qed
qed

text \<open>
  C9.  A request that the upstream rejects with status 429 is never handed to the caller
  as a failure.  Each fetch method rethrows a 429 error to the limiter, whose \<open>failed\<close>
  listener answers with the server's \<open>retry-after\<close> seconds in milliseconds, or 10000
  without the header; the limiter then waits that long and sends the same request again,
  for every further rejection.  So the promise is never rejected, the trace of requests
  and waits is the one the specification describes, and the promise stays pending exactly
  when every answer is a rejection.
\<close>

theorem throttled_requests_are_retried:
  "snd (schedule (job wrap fallback) rs) \<noteq> Some (Inl error')
   \<and> fst (schedule (job wrap fallback) rs) = retryTrace rs
   \<and> (snd (schedule (job wrap fallback) rs) = None \<longleftrightarrow> list_all throttled rs)
   \<and> onFailed \<lparr>status = Some 429, retryAfter = Some seconds\<rparr> = Some (seconds * 1000)
   \<and> onFailed \<lparr>status = Some 429, retryAfter = None\<rparr> = Some 10000"
proof -
  have a: "snd (schedule (job wrap fallback) rs) \<noteq> Some (Inl error')"
    by (simp add: schedule_job split: list.splits response.splits)
  have b: "fst (schedule (job wrap fallback) rs) = retryTrace rs" by (simp add: schedule_job)
  have res: "snd (schedule (job wrap fallback) rs)
      = (case dropWhile throttled rs of
           [] \<Rightarrow> None
         | Data d # _ \<Rightarrow> Some (Inr (wrap d))
         | Failed _ # _ \<Rightarrow> Some (Inr fallback))"
    by (simp add: schedule_job)
  have "(snd (schedule (job wrap fallback) rs) = None) = (dropWhile throttled rs = [])"
  proof (cases "dropWhile throttled rs")
    case Nil
    show ?thesis unfolding res Nil by simp
  next
    case (Cons r rest)
    show ?thesis unfolding res Cons by (cases r) simp_all
  qed
  also have "\<dots> = list_all throttled rs"
    by (simp add: dropWhile_eq_Nil_conv list_all_iff)
  finally have c: "(snd (schedule (job wrap fallback) rs) = None) = list_all throttled rs" .
  have d: "onFailed \<lparr>status = Some 429, retryAfter = Some seconds\<rparr> = Some (seconds * 1000)"
    "onFailed \<lparr>status = Some 429, retryAfter = None\<rparr> = Some 10000"
    by (simp_all add: onFailed_def)
  from a b c d show ?thesis by (intro conjI)
qed

theorem throttled_requests_are_retried_witness:
  "schedule (job Some None)
      [Failed (tooManyRequests (Some 3)), Failed (tooManyRequests None),
       Data (demoMatch (demoParticipant ''TOP'' ''TOP'' True))]
    = ([Request, Wait 3000, Request, Wait 10000, Request],
       Some (Inr (Some (demoMatch (demoParticipant ''TOP'' ''TOP'' True)))))
   \<and> snd (schedule (job Some None)
      [Failed (tooManyRequests (Some 3)), Failed (tooManyRequests None),
       Data (demoMatch (demoParticipant ''TOP'' ''TOP'' True))])
      \<noteq> Some (Inl (tooManyRequests None))"
  using throttled_requests_are_retried[of Some None
      "[Failed (tooManyRequests (Some 3)), Failed (tooManyRequests None),
        Data (demoMatch (demoParticipant ''TOP'' ''TOP'' True))]" "tooManyRequests None"]
  by (simp add: job_def tooManyRequests_def onFailed_def)

text \<open>
  C7.  When the fetch of a match fails with an error other than 429 (after any number of
  throttled attempts), \<open>getMatchDetails\<close> resolves to \<open>null\<close> and the promise stays in the match
  cache: a later call for the same identifier returns the cached \<open>null\<close>, whatever the
  upstream would answer then, and sends no request.
\<close>

theorem failed_match_stays_cached:
  assumes "matchCache s matchId = None"
    and "upstream matchId = pre @ Failed error' # rest"
    and "list_all throttled pre" and "status error' \<noteq> Some 429"
  shows "fst (getMatchDetails upstream matchId s) = Some (Inr None)
       \<and> matchCache (snd (getMatchDetails upstream matchId s)) matchId = Some (Some (Inr None))
       \<and> requests (snd (getMatchDetails upstream matchId s))
           = requests s @ replicate (Suc (length pre)) matchId
       \<and> getMatchDetails upstream' matchId (snd (getMatchDetails upstream matchId s))
           = (Some (Inr None), snd (getMatchDetails upstream matchId s))"
proof -
  have dw: "dropWhile throttled (pre @ Failed error' # rest) = Failed error' # rest"
    using assms(3,4) by (simp add: dropWhile_append3 list_all_iff throttled_def)
  have tr: "length (filter (\<lambda>e. e = Request) (retryTrace (pre @ Failed error' # rest))) = Suc (length pre)"
    using assms(3,4) by (induction pre) (simp_all add: throttled_def)
  obtain trace p where sp: "schedule (job Some None) (upstream matchId) = (trace, p)"
    by (cases "schedule (job Some None) (upstream matchId)")
  with schedule_job[of Some None "upstream matchId"] have
    "trace = retryTrace (upstream matchId)" "p = Some (Inr None)"
    by (simp_all add: assms(2) dw)
  then have g: "getMatchDetails upstream matchId s
     = (Some (Inr None), s\<lparr>matchCache := (matchCache s)(matchId \<mapsto> Some (Inr None)),
          requests := requests s @ replicate (Suc (length pre)) matchId\<rparr>)"
    using assms(1,2) sp tr by (simp add: getMatchDetails_def)
  show ?thesis unfolding g by (simp add: getMatchDetails_def)
qed

theorem failed_match_stays_cached_witness:
  "fst (getMatchDetails (\<lambda>_. [Failed (tooManyRequests (Some 3)), Failed notFound]) ''KR_9''
          emptyService) = Some (Inr None)
   \<and> requests (snd (getMatchDetails (\<lambda>_. [Failed (tooManyRequests (Some 3)), Failed notFound])
                     ''KR_9'' emptyService)) = [''KR_9'', ''KR_9'']
   \<and> getMatchDetails (\<lambda>_. [Data (demoMatch (demoParticipant ''TOP'' ''TOP'' True))]) ''KR_9''
        (snd (getMatchDetails (\<lambda>_. [Failed (tooManyRequests (Some 3)), Failed notFound])
               ''KR_9'' emptyService))
      = (Some (Inr None),
         snd (getMatchDetails (\<lambda>_. [Failed (tooManyRequests (Some 3)), Failed notFound])
                ''KR_9'' emptyService))"
  using failed_match_stays_cached[of emptyService "''KR_9''"
      "\<lambda>_. [Failed (tooManyRequests (Some 3)), Failed notFound]"
      "[Failed (tooManyRequests (Some 3))]" notFound "[]"
      "\<lambda>_. [Data (demoMatch (demoParticipant ''TOP'' ''TOP'' True))]"]
  by (simp add: emptyService_def throttled_def tooManyRequests_def notFound_def)

text \<open>
  The placeholder of a failed fetch is not removed: after a 404 the cache still holds the
  entry, and a second call, to which the upstream would now deliver the match, returns
  \<open>null\<close> with the request log unchanged.
\<close>

theorem failed_match_not_refetched:
  "matchCache (snd (getMatchDetails (\<lambda>_. [Failed notFound]) ''KR_9'' emptyService)) ''KR_9''
      = Some (Some (Inr None))
   \<and> requests (snd (getMatchDetails (\<lambda>_. [Failed notFound]) ''KR_9'' emptyService)) = [''KR_9'']
   \<and> fst (getMatchDetails (\<lambda>_. [Data (demoMatch (demoParticipant ''TOP'' ''TOP'' True))]) ''KR_9''
        (snd (getMatchDetails (\<lambda>_. [Failed notFound]) ''KR_9'' emptyService)))
      = Some (Inr None)
   \<and> requests (snd (getMatchDetails (\<lambda>_. [Data (demoMatch (demoParticipant ''TOP'' ''TOP'' True))])
        ''KR_9'' (snd (getMatchDetails (\<lambda>_. [Failed notFound]) ''KR_9'' emptyService))))
      = [''KR_9'']
   \<and> fst (getMatchDetails (\<lambda>_. [Data (demoMatch (demoParticipant ''TOP'' ''TOP'' True))]) ''KR_9''
        emptyService)
      = Some (Inr (Some (demoMatch (demoParticipant ''TOP'' ''TOP'' True))))"
  by (simp add: getMatchDetails_def emptyService_def job_def notFound_def onFailed_def)

section \<open>The draft loop\<close>

lemma draft_Inr:
  assumes "ord \<noteq> []" "\<forall>j<length ord. ord ! j < length teams"
  shows "\<exists>ts. draft ord ps i teams = Inr ts \<and> length ts = length teams
          \<and> (\<forall>t<length teams. ts ! t = (teams ! t)\<lparr>players := players (teams ! t) @ picks ord ps i t\<rparr>)"
  using assms
proof (induction ps arbitrary: i teams)
  case Nil
  then show ?case by simp
next
  case (Cons p ps)
  define ti where "ti = ord ! (i mod length ord)"
  have lt: "ti < length teams" using Cons.prems by (simp add: ti_def)
  define teams' where "teams' = teams[ti := (teams ! ti)\<lparr>players := players (teams ! ti) @ [p]\<rparr>]"
  have len: "length teams' = length teams" by (simp add: teams'_def)
  have step: "draft ord (p # ps) i teams = draft ord ps (Suc i) teams'"
    using Cons.prems(1) lt by (simp add: ti_def teams'_def Let_def)
  from Cons.IH[of teams' "Suc i"] Cons.prems len
  obtain ts where ts: "draft ord ps (Suc i) teams' = Inr ts" "length ts = length teams'"
    "\<forall>t<length teams'. ts ! t = (teams' ! t)\<lparr>players := players (teams' ! t) @ picks ord ps (Suc i) t\<rparr>"
    by auto
  have "ts ! t = (teams ! t)\<lparr>players := players (teams ! t) @ picks ord (p # ps) i t\<rparr>"
    if "t < length teams" for t
  proof (cases "t = ti")
    case True
    with ts(3) len that show ?thesis by (simp add: teams'_def ti_def)
  next
    case False
    with ts(3) len that show ?thesis by (simp add: teams'_def ti_def)
  qed
  with ts step len show ?case by simp
qed

lemma picks_filter:
  "picks ord ps i t = map ((!) ps) (filter (\<lambda>j. ord ! ((i + j) mod length ord) = t) [0..<length ps])"
proof (induction ps arbitrary: i)
  case Nil
  show ?case by simp
next
  case (Cons p ps)
  have upt: "[0..<length (p # ps)] = 0 # map Suc [0..<length ps]"
    by (simp add: upt_conv_Cons map_Suc_upt del: upt_Suc)
  show ?case unfolding upt
    by (simp add: Cons.IH filter_map comp_def del: upt_Suc)
qed


lemma draftOrder_nth:
  "m < 2 * k \<Longrightarrow> draftOrder k ! m = (if m < k then m else 2 * k - 1 - m)"
  by (auto simp: draftOrder_def nth_append rev_nth)

lemma filter_eq_upt: "filter (\<lambda>j. j = c) [0..<k] = (if c < k then [c] else [])"
  by (induction k) auto

lemma filter_chunk:
  "filter P [a..<a + k] = map (\<lambda>j. j + a) (filter (\<lambda>j. P (j + a)) [0..<k])"
proof -
  have "[a..<a + k] = map (\<lambda>j. j + a) [0..<k]"
    by (simp add: map_add_upt add.commute)
  then show ?thesis by (simp add: filter_map comp_def)
qed

lemma chunk_ascending:
  assumes "t < k" "a mod (2 * k) = 0"
  shows "filter (\<lambda>j. draftOrder k ! (j mod (2 * k)) = t) [a..<a + k] = [a + t]"
proof -
  have "(draftOrder k ! ((j + a) mod (2 * k)) = t) = (j = t)" if "j \<in> set [0..<k]" for j
  proof -
    from that have j: "j < k" by simp
    have "(j + a) mod (2 * k) = (j + a mod (2 * k)) mod (2 * k)" by (simp add: mod_add_right_eq)
    also have "\<dots> = j" using j assms(2) by simp
    finally show ?thesis using j by (simp add: draftOrder_nth)
  qed
  then have "filter (\<lambda>j. draftOrder k ! ((j + a) mod (2 * k)) = t) [0..<k] = filter (\<lambda>j. j = t) [0..<k]"
    by (rule filter_cong[OF refl])
  then show ?thesis using assms(1) by (simp add: filter_chunk filter_eq_upt)
qed

lemma chunk_descending:
  assumes "t < k" "a mod (2 * k) = k"
  shows "filter (\<lambda>j. draftOrder k ! (j mod (2 * k)) = t) [a..<a + k] = [a + (k - 1 - t)]"
proof -
  have "(draftOrder k ! ((j + a) mod (2 * k)) = t) = (j = k - 1 - t)" if "j \<in> set [0..<k]" for j
  proof -
    from that have j: "j < k" by simp
    have "(j + a) mod (2 * k) = (j + a mod (2 * k)) mod (2 * k)" by (simp add: mod_add_right_eq)
    also have "\<dots> = j + k" using j assms(2) by simp
    finally show ?thesis using j assms(1) by (auto simp add: draftOrder_nth)
  qed
  then have "filter (\<lambda>j. draftOrder k ! ((j + a) mod (2 * k)) = t) [0..<k] = filter (\<lambda>j. j = k - 1 - t) [0..<k]"
    by (rule filter_cong[OF refl])
  then show ?thesis using assms(1) by (simp add: filter_chunk filter_eq_upt)
qed

lemma snake_indices:
  assumes "t < k"
  shows "filter (\<lambda>j. draftOrder k ! (j mod (2 * k)) = t) [0..<5 * k]
          = [t, 2 * k - 1 - t, 2 * k + t, 4 * k - 1 - t, 4 * k + t]"
proof -
  have split: "[0..<5 * k] = [0..<0 + k] @ [k..<k + k] @ [2 * k..<2 * k + k] @ [3 * k..<3 * k + k] @ [4 * k..<4 * k + k]"
  proof -
    have "[0..<5 * k] = [0..<4 * k] @ [4 * k..<4 * k + k]"
      using upt_add_eq_append[of 0 "4 * k" k] by simp
    also have "[0..<4 * k] = [0..<3 * k] @ [3 * k..<3 * k + k]"
      using upt_add_eq_append[of 0 "3 * k" k] by simp
    also have "[0..<3 * k] = [0..<2 * k] @ [2 * k..<2 * k + k]"
      using upt_add_eq_append[of 0 "2 * k" k] by simp
    also have "[0..<2 * k] = [0..<0 + k] @ [k..<k + k]"
      using upt_add_eq_append[of 0 "k" k] by (simp add: mult_2)
    finally show ?thesis by simp
  qed
  have m0: "0 mod (2 * k) = 0" by simp
  have m1: "k mod (2 * k) = k" using assms by simp
  have m2: "(2 * k) mod (2 * k) = 0" by simp
  have m3: "(3 * k) mod (2 * k) = k"
  proof -
    have "3 * k = k + 1 * (2 * k)" by simp
    then have "(3 * k) mod (2 * k) = k mod (2 * k)" by (metis mod_mult_self1)
    then show ?thesis using m1 by simp
  qed
  have m4: "(4 * k) mod (2 * k) = 0"
  proof -
    have "4 * k = 2 * (2 * k)" by simp
    then show ?thesis by (metis mod_mult_self2_is_0)
  qed
  show ?thesis
    unfolding split filter_append
      chunk_ascending[OF assms m0] chunk_descending[OF assms m1] chunk_ascending[OF assms m2]
      chunk_descending[OF assms m3] chunk_ascending[OF assms m4]
    using assms by simp
qed

lemma distinct_concat_nth_disjoint:
  "distinct (concat xss) \<Longrightarrow> i < length xss \<Longrightarrow> j < length xss \<Longrightarrow> i \<noteq> j
    \<Longrightarrow> set (xss ! i) \<inter> set (xss ! j) = {}"
proof (induction xss arbitrary: i j)
  case Nil
  then show ?case by simp
next
  case (Cons xs xss)
  from Cons.prems(1) have d: "distinct (concat xss)"
    and x: "\<And>ys. ys \<in> set xss \<Longrightarrow> set xs \<inter> set ys = {}"
    by auto
  show ?case
  proof (cases i)
    case 0
    with Cons.prems obtain j' where j: "j = Suc j'" "j' < length xss" by (cases j) auto
    then have "xss ! j' \<in> set xss" by simp
    from x[OF this] 0 j show ?thesis by simp
  next
    case (Suc i')
    show ?thesis
    proof (cases j)
      case 0
      from Suc Cons.prems have "xss ! i' \<in> set xss" by simp
      from x[OF this] 0 Suc show ?thesis by auto
    next
      case (Suc j')
      with \<open>i = Suc i'\<close> Cons.prems Cons.IH[OF d, of i' j'] show ?thesis by simp
    qed
  qed
qed

lemma concat_single_extra:
  "t0 < k \<Longrightarrow> mset (concat (map (\<lambda>t. if t0 = t then p # f t else f t) [0..<k]))
      = add_mset p (mset (concat (map f [0..<k])))"
proof (induction k)
  case 0
  then show ?case by simp
next
  case (Suc k)
  show ?case
  proof (cases "t0 = k")
    case True
    have e: "map (\<lambda>t. if k = t then p # f t else f t) [0..<k] = map f [0..<k]" by simp
    show ?thesis unfolding True by (simp add: e)
  next
    case False
    with Suc have "t0 < k" by simp
    from Suc.IH[OF this] False show ?thesis by simp
  qed
qed


lemma players_optimizeLaneDistribution [simp]:
  "players (optimizeLaneDistribution team) = players team"
  by (simp add: optimizeLaneDistribution_def Let_def)

lemma players_setAverage [simp]: "players (setAverage team) = players team"
  by (simp add: setAverage_def Let_def)

lemma length_draftOrder [simp]: "length (draftOrder k) = 2 * k"
  by (simp add: draftOrder_def)

lemma draftOrder_bound: "j < length (draftOrder k) \<Longrightarrow> draftOrder k ! j < k"
  by (simp add: draftOrder_nth) arith

lemma mset_picks:
  assumes "ord \<noteq> []" "\<forall>j<length ord. ord ! j < k"
  shows "mset (concat (map (picks ord ps i) [0..<k])) = mset ps"
proof (induction ps arbitrary: i)
  case Nil
  show ?case by (induction k) simp_all
next
  case (Cons p ps)
  have lt: "ord ! (i mod length ord) < k" using assms by simp
  show ?case
    using concat_single_extra[OF lt, of p "picks ord ps (Suc i)"] Cons.IH[of "Suc i"]
    by simp
qed

lemma divide_result:
  assumes "10 \<le> length ps" "length ps mod 5 = 0"
  defines "k \<equiv> length ps div 5"
  defines "sortedPlayers \<equiv> sort_key (\<lambda>p. - teamContribution p) ps"
  shows "\<exists>ts. divideIntoTeams ps = Inr (map setAverage (map optimizeLaneDistribution ts))
            \<and> length ts = k
            \<and> (\<forall>t<k. players (ts ! t) = picks (draftOrder k) sortedPlayers 0 t)"
proof -
  have k: "0 < k" "length ps = 5 * k" using assms by (auto simp: k_def)
  have ne: "draftOrder k \<noteq> []" using k by (auto simp: draftOrder_def)
  have bd: "\<forall>j<length (draftOrder k). draftOrder k ! j < length (emptyTeams k)"
    using draftOrder_bound by (simp add: emptyTeams_def)
  from draft_Inr[OF ne bd, of sortedPlayers 0]
  obtain ts where ts: "draft (draftOrder k) sortedPlayers 0 (emptyTeams k) = Inr ts"
    "length ts = length (emptyTeams k)"
    "\<forall>t<length (emptyTeams k). ts ! t = (emptyTeams k ! t)\<lparr>players := players (emptyTeams k ! t) @ picks (draftOrder k) sortedPlayers 0 t\<rparr>"
    by blast
  have "divideIntoTeams ps = Inr (map setAverage (map optimizeLaneDistribution ts))"
    using assms(1,2) ts(1) by (simp add: divideIntoTeams_def Let_def k_def sortedPlayers_def)
  moreover have "length ts = k" using ts(2) by (simp add: emptyTeams_def)
  moreover have "players (ts ! t) = picks (draftOrder k) sortedPlayers 0 t" if "t < k" for t
    using ts(3) that by (simp add: emptyTeams_def)
  ultimately show ?thesis by blast
qed

section \<open>Lane assignment\<close>

lemma best_fold_mem:
  "fst (foldl (\<lambda>(bestPlayer, maxLaneCount) player.
                 let laneCount' = f player
                 in if laneCount' > maxLaneCount then (player, laneCount')
                    else (bestPlayer, maxLaneCount)) (b, m) xs) \<in> insert b (set xs)"
proof (induction xs arbitrary: b m)
  case Nil
  show ?case by simp
next
  case (Cons x xs)
  show ?case using Cons[of x "f x"] Cons[of b m] by (auto simp: Let_def)
qed

lemma findBest_mem: "findBestPlayerForLane u l = Some b \<Longrightarrow> b \<in> set u"
proof (cases u)
  case Nil
  then show "findBestPlayerForLane u l = Some b \<Longrightarrow> b \<in> set u"
    by (simp add: findBestPlayerForLane_def)
next
  case (Cons p0 rest)
  assume a: "findBestPlayerForLane u l = Some b"
  have "fst (foldl (\<lambda>(bestPlayer, maxLaneCount) player.
                 let laneCount' = count_of (laneDistribution player) l
                 in if laneCount' > maxLaneCount then (player, laneCount')
                    else (bestPlayer, maxLaneCount)) (p0, count_of (laneDistribution p0) l) u) \<in> insert p0 (set u)"
    by (rule best_fold_mem)
  moreover have "insert p0 (set u) = set u" using Cons by auto
  ultimately show "b \<in> set u" using a Cons
    by (auto simp: findBestPlayerForLane_def Let_def split: prod.splits if_splits)
qed

lemma splice1_Suc: "splice1 (y # ys) (Some (Suc i)) = y # splice1 ys (Some i)"
  by (simp add: splice1_def)

lemma splice1_indexOf: "b \<in> set u \<Longrightarrow> splice1 u (indexOf u b) = remove1 b u"
proof (induction u)
  case Nil
  then show ?case by simp
next
  case (Cons y ys)
  show ?case
  proof (cases "y = b")
    case True
    then show ?thesis by (simp add: splice1_def)
  next
    case False
    with Cons.prems have "b \<in> set ys" by simp
    from Cons.IH[OF this] have ih: "splice1 ys (indexOf ys b) = remove1 b ys" .
    show ?thesis
    proof (cases "indexOf ys b")
      case None
      have "indexOf zs b = None \<Longrightarrow> b \<notin> set zs" for zs
        by (induction zs) (auto split: if_splits)
      with None \<open>b \<in> set ys\<close> show ?thesis by blast
    next
      case (Some i)
      with ih False show ?thesis by (simp add: splice1_Suc)
    qed
  qed
qed

lemma occupants_update:
  "a l = None \<Longrightarrow> mset (occupants (a(l := Some b))) = add_mset b (mset (occupants a))"
  by (cases l) (simp_all add: occupants_def lanes_def map_filter_simps split: option.splits)

lemma assignBest_step:
  assumes "a l = None" "assignBest (a, u) l = (a1, u1)"
  shows "mset (occupants a1) + mset u1 = mset (occupants a) + mset u \<and> (\<forall>l'. l' \<noteq> l \<longrightarrow> a1 l' = a l')"
proof (cases "findBestPlayerForLane u l")
  case None
  with assms show ?thesis by simp
next
  case (Some b)
  then have "b \<in> set u" by (rule findBest_mem)
  with assms Some show ?thesis
    by (auto simp: splice1_indexOf occupants_update)
qed

lemma first_pass:
  assumes "distinct ls" "\<forall>l\<in>set ls. a l = None" "foldl assignBest (a, u) ls = (a', u')"
  shows "mset (occupants a') + mset u' = mset (occupants a) + mset u"
  using assms
proof (induction ls arbitrary: a u)
  case Nil
  then show ?case by simp
next
  case (Cons l ls)
  obtain a1 u1 where s: "assignBest (a, u) l = (a1, u1)" by (cases "assignBest (a, u) l")
  from Cons.prems have "a l = None" by simp
  from assignBest_step[OF this s] have st:
    "mset (occupants a1) + mset u1 = mset (occupants a) + mset u" "\<forall>l'. l' \<noteq> l \<longrightarrow> a1 l' = a l'"
    by auto
  have n: "\<forall>l'\<in>set ls. a1 l' = None" using st(2) Cons.prems(1,2) by auto
  have f: "foldl assignBest (a1, u1) ls = (a', u')" using Cons.prems(3) s by simp
  have d: "distinct ls" using Cons.prems(1) by simp
  have "mset (occupants a') + mset u' = mset (occupants a1) + mset u1"
    by (rule Cons.IH[OF d n f])
  with st(1) show ?case by simp
qed

lemma fillEmpty_step:
  assumes "fillEmpty (a, u) l = (a1, u1)"
  shows "mset (occupants a1) + mset u1 = mset (occupants a) + mset u
       \<and> (\<forall>l'. a l' \<noteq> None \<longrightarrow> a1 l' \<noteq> None) \<and> (u = [] \<longrightarrow> u1 = [])
       \<and> (a1 l \<noteq> None \<or> u1 = [])"
proof (cases "a l = None \<and> u \<noteq> []")
  case True
  then obtain x xs where "u = x # xs" by (cases u) auto
  with True assms show ?thesis by (auto simp: occupants_update)
next
  case False
  with assms show ?thesis by auto
qed

lemma second_pass:
  assumes "foldl fillEmpty (a, u) ls = (a', u')"
  shows "mset (occupants a') + mset u' = mset (occupants a) + mset u
       \<and> (\<forall>l'. a l' \<noteq> None \<longrightarrow> a' l' \<noteq> None) \<and> (u = [] \<longrightarrow> u' = [])
       \<and> (\<forall>l\<in>set ls. a' l \<noteq> None \<or> u' = [])"
  using assms
proof (induction ls arbitrary: a u)
  case Nil
  then show ?case by simp
next
  case (Cons l ls)
  obtain a1 u1 where s: "fillEmpty (a, u) l = (a1, u1)" by (cases "fillEmpty (a, u) l")
  from fillEmpty_step[OF s] have st:
    "mset (occupants a1) + mset u1 = mset (occupants a) + mset u"
    "\<forall>l'. a l' \<noteq> None \<longrightarrow> a1 l' \<noteq> None" "u = [] \<longrightarrow> u1 = []" "a1 l \<noteq> None \<or> u1 = []"
    by blast+
  have "foldl fillEmpty (a1, u1) ls = (a', u')" using Cons.prems s by simp
  from Cons.IH[OF this] have ih:
    "mset (occupants a') + mset u' = mset (occupants a1) + mset u1"
    "\<forall>l'. a1 l' \<noteq> None \<longrightarrow> a' l' \<noteq> None" "u1 = [] \<longrightarrow> u' = []"
    "\<forall>l\<in>set ls. a' l \<noteq> None \<or> u' = []"
    by blast+
  have c1: "mset (occupants a') + mset u' = mset (occupants a) + mset u"
    using st(1) ih(1) by simp
  have c2: "\<forall>l'. a l' \<noteq> None \<longrightarrow> a' l' \<noteq> None" using st(2) ih(2) by blast
  have c3: "u = [] \<longrightarrow> u' = []" using st(3) ih(3) by blast
  have c4: "\<forall>l\<in>set (l # ls). a' l \<noteq> None \<or> u' = []" using st(4) ih(2,3,4) by auto
  from c1 c2 c3 c4 show ?case by blast
qed

lemma occupants_full:
  assumes "length (occupants a) = 5"
  shows "a l \<noteq> None"
  using assms by (cases l) (auto simp: occupants_def lanes_def map_filter_simps split: option.splits)

lemma occupants_Some:
  assumes "\<forall>l. a l \<noteq> None"
  shows "map a lanes = map Some (occupants a)"
proof -
  have "a = (\<lambda>l. Some (the (a l)))" using assms by (simp add: fun_eq_iff)
  then obtain f where "a = (\<lambda>l. Some (f l))" ..
  then show ?thesis by (simp add: occupants_def lanes_def map_filter_simps)
qed

lemma set_lanes: "set lanes = UNIV"
proof -
  have "l \<in> set lanes" for l by (cases l) (simp_all add: lanes_def)
  then show ?thesis by auto
qed

lemma optimize_five:
  assumes "length (players team) = 5"
  shows "\<exists>occ. map (laneAssignment (optimizeLaneDistribution team)) lanes = map Some occ
           \<and> mset occ = mset (players team)"
proof -
  obtain a1 u1 where p1: "foldl assignBest (\<lambda>_. None, players team) lanes = (a1, u1)"
    by (cases "foldl assignBest (\<lambda>_. None, players team) lanes")
  obtain a2 u2 where p2: "foldl fillEmpty (a1, u1) lanes = (a2, u2)"
    by (cases "foldl fillEmpty (a1, u1) lanes")
  have la: "laneAssignment (optimizeLaneDistribution team) = a2"
    by (simp add: optimizeLaneDistribution_def Let_def p1 p2)
  have "distinct lanes" by (simp add: lanes_def)
  from first_pass[OF this _ p1]
  have m1: "mset (occupants a1) + mset u1 = mset (players team)"
    by (simp add: occupants_def lanes_def map_filter_simps)
  from second_pass[OF p2] m1 have m2: "mset (occupants a2) + mset u2 = mset (players team)"
    and fill: "\<forall>l\<in>set lanes. a2 l \<noteq> None \<or> u2 = []" by simp_all
  have sz: "length (occupants a2) + length u2 = 5"
    using arg_cong[OF m2, of size] assms by simp
  have all: "\<forall>l. a2 l \<noteq> None"
  proof (cases "u2 = []")
    case True
    with sz have "length (occupants a2) = 5" by simp
    then show ?thesis using occupants_full by blast
  next
    case False
    with fill show ?thesis by (simp add: set_lanes)
  qed
  then have full: "map a2 lanes = map Some (occupants a2)" by (rule occupants_Some)
  have "length (occupants a2) = length (map Some (occupants a2))" by simp
  also have "\<dots> = length (map a2 lanes)" by (simp only: full)
  also have "\<dots> = 5" by (simp add: lanes_def)
  finally have "length (occupants a2) = 5" .
  with sz have "u2 = []" by simp
  with m2 have "mset (occupants a2) = mset (players team)" by simp
  with full la show ?thesis by blast
qed

section \<open>Team division\<close>

lemma laneAssignment_setAverage [simp]: "laneAssignment (setAverage team) = laneAssignment team"
  by (simp add: setAverage_def Let_def)

lemma length_picks_snake:
  assumes "t < k" "length ps = 5 * k"
  shows "length (picks (draftOrder k) ps 0 t) = 5"
  using snake_indices[OF assms(1)] assms(2) by (simp add: picks_filter)

text \<open>The division of the ten example players, computed.\<close>

lemma ten_result:
  "\<exists>teams. divideIntoTeams tenPlayers = Inr teams
     \<and> map (\<lambda>t. map gameName (players t)) teams
        = [[''g'', ''d'', ''e'', ''c'', ''i''], [''b'', ''h'', ''j'', ''a'', ''f'']]
     \<and> map (\<lambda>t. map (map_option gameName \<circ> laneAssignment t) lanes) teams
        = [[Some ''g'', Some ''c'', Some ''d'', Some ''e'', Some ''i''],
           [Some ''a'', Some ''j'', Some ''b'', Some ''h'', Some ''f'']]
     \<and> map (\<lambda>t. map (\<lambda>p. n_MIDDLE (laneDistribution p) + n_BOTTOM (laneDistribution p)
                 + n_UTILITY (laneDistribution p)) (players t)) teams
        = [[0, 0, 0, 0, 0], [0, 0, 0, 0, 0]]"
  by (simp add: divideIntoTeams_def tenPlayers_def demoPlayer_def zeroStats_def zeroCounts_def
      draftOrder_def emptyTeams_def Let_def optimizeLaneDistribution_def setAverage_def
      lanes_def findBestPlayerForLane_def splice1_def upt_rec)

text \<open>
  C2.  \<open>divideIntoTeams\<close> raises exactly when the number of players is below 10 or not a
  multiple of 5, and the error is then the one of the guard; for every list of at least 10
  players whose length is a multiple of 5 it returns teams.  The accesses \<open>draftOrder[i]\<close>
  and \<open>teams[teamIndex]\<close> of the draft loop, which would throw out of range, stay in range.
\<close>

theorem divideIntoTeams_raises_iff:
  "(divideIntoTeams ps = Inl InvalidInput \<longleftrightarrow> length ps < 10 \<or> length ps mod 5 \<noteq> 0)
   \<and> (isl (divideIntoTeams ps) \<longleftrightarrow> length ps < 10 \<or> length ps mod 5 \<noteq> 0)
   \<and> (10 \<le> length ps \<and> length ps mod 5 = 0 \<longrightarrow> (\<exists>teams. divideIntoTeams ps = Inr teams))"
proof (cases "length ps < 10 \<or> length ps mod 5 \<noteq> 0")
  case True
  then show ?thesis by (auto simp: divideIntoTeams_def)
next
  case False
  then have v: "10 \<le> length ps" "length ps mod 5 = 0" by auto
  from divide_result[OF v] obtain ts where
    "divideIntoTeams ps = Inr (map setAverage (map optimizeLaneDistribution ts))" by blast
  with False show ?thesis by auto
qed

theorem divideIntoTeams_raises_iff_witness:
  "divideIntoTeams (take 7 tenPlayers) = Inl InvalidInput
   \<and> divideIntoTeams (tenPlayers @ take 2 tenPlayers) = Inl InvalidInput
   \<and> (\<exists>teams. divideIntoTeams tenPlayers = Inr teams)
   \<and> (\<exists>teams. divideIntoTeams (tenPlayers @ take 5 tenPlayers) = Inr teams)"
  using divideIntoTeams_raises_iff[of "take 7 tenPlayers"]
    divideIntoTeams_raises_iff[of "tenPlayers @ take 2 tenPlayers"]
    divideIntoTeams_raises_iff[of tenPlayers]
    divideIntoTeams_raises_iff[of "tenPlayers @ take 5 tenPlayers"]
  by (simp add: tenPlayers_def)

text \<open>
  C4.  For \<open>n \<ge> 10\<close> players, \<open>n\<close> a multiple of 5, \<open>divideIntoTeams\<close> returns \<open>n / 5\<close> teams
  of exactly 5 members.  Team \<open>t\<close> holds, in order, the players at those positions \<open>i\<close> of
  the descending-sorted list whose entry \<open>draftOrder[i % draftOrder.length]\<close> of the snake
  order \<open>0..teamCount-1, teamCount-1..0\<close> is \<open>t\<close>, which are the positions
  \<open>t, 2k-1-t, 2k+t, 4k-1-t, 4k+t\<close> for \<open>k\<close> teams.  The member lists together are a permutation
  of the input (each input player is in exactly one team, counted with multiplicity), so
  for pairwise different input players the member lists are pairwise disjoint.
\<close>

theorem divideIntoTeams_snake_partition:
  assumes "10 \<le> length ps" "length ps mod 5 = 0"
  defines "k \<equiv> length ps div 5"
  defines "sortedPlayers \<equiv> sort_key (\<lambda>p. - teamContribution p) ps"
  shows "\<exists>teams. divideIntoTeams ps = Inr teams
     \<and> length teams = k
     \<and> (\<forall>t<k. length (players (teams ! t)) = 5
            \<and> players (teams ! t) = map ((!) sortedPlayers)
                 (filter (\<lambda>i. draftOrder k ! (i mod length (draftOrder k)) = t) [0..<length ps])
            \<and> players (teams ! t) = map ((!) sortedPlayers)
                 [t, 2 * k - 1 - t, 2 * k + t, 4 * k - 1 - t, 4 * k + t])
     \<and> mset (concat (map players teams)) = mset ps
     \<and> (distinct ps \<longrightarrow> distinct (concat (map players teams)))
     \<and> (distinct ps \<longrightarrow>
          (\<forall>i<k. \<forall>j<k. i \<noteq> j \<longrightarrow> set (players (teams ! i)) \<inter> set (players (teams ! j)) = {}))
     \<and> sorted_wrt (\<lambda>a b. teamContribution a \<ge> teamContribution b) sortedPlayers
     \<and> mset sortedPlayers = mset ps"
proof -
  have k: "0 < k" "length ps = 5 * k" using assms by (auto simp: k_def)
  have ls: "length sortedPlayers = length ps" by (simp add: sortedPlayers_def)
  from divide_result[OF assms(1,2)] obtain ts where ts:
    "divideIntoTeams ps = Inr (map setAverage (map optimizeLaneDistribution ts))"
    "length ts = k"
    "\<forall>t<k. players (ts ! t) = picks (draftOrder k) sortedPlayers 0 t"
    unfolding k_def sortedPlayers_def by blast
  define teams where "teams = map setAverage (map optimizeLaneDistribution ts)"
  have pl: "players (teams ! t) = picks (draftOrder k) sortedPlayers 0 t" if "t < k" for t
    using ts(2,3) that by (simp add: teams_def)
  have idx: "players (teams ! t) = map ((!) sortedPlayers)
       (filter (\<lambda>i. draftOrder k ! (i mod length (draftOrder k)) = t) [0..<length ps])"
    if "t < k" for t
    using pl[OF that] by (simp add: picks_filter ls)
  have closed: "players (teams ! t) = map ((!) sortedPlayers)
       [t, 2 * k - 1 - t, 2 * k + t, 4 * k - 1 - t, 4 * k + t]" if "t < k" for t
    using idx[OF that] snake_indices[OF that] k(2) by simp
  have "map players teams = map (picks (draftOrder k) sortedPlayers 0) [0..<k]"
    using ts(2) pl by (auto simp: teams_def list_eq_iff_nth_eq)
  then have "mset (concat (map players teams)) = mset sortedPlayers"
    using mset_picks[of "draftOrder k" k sortedPlayers 0] draftOrder_bound k(1)
    by (simp add: draftOrder_def)
  then have ms: "mset (concat (map players teams)) = mset ps"
    by (simp add: sortedPlayers_def)
  have dist: "distinct (concat (map players teams))" if "distinct ps"
    using ms that by (metis distinct_count_atmost_1 mset_eq_setD set_mset_mset)
  have lt: "length teams = k" using ts(2) by (simp add: teams_def)
  have disj: "set (players (teams ! i)) \<inter> set (players (teams ! j)) = {}"
    if "distinct ps" "i < k" "j < k" "i \<noteq> j" for i j
    using distinct_concat_nth_disjoint[OF dist[OF that(1)], of i j] that(2,3,4) lt by simp
  have "sorted (map (\<lambda>p. - teamContribution p) sortedPlayers)"
    by (simp add: sortedPlayers_def)
  then have desc: "sorted_wrt (\<lambda>a b. teamContribution a \<ge> teamContribution b) sortedPlayers"
    by (simp add: sorted_map)
  from ts(1) lt closed idx ms dist disj desc show ?thesis
    unfolding teams_def[symmetric] by (auto simp: sortedPlayers_def)
qed

theorem divideIntoTeams_snake_partition_witness:
  "\<exists>teams. divideIntoTeams tenPlayers = Inr teams
     \<and> length teams = 2
     \<and> map (\<lambda>t. map gameName (players t)) teams
        = [[''g'', ''d'', ''e'', ''c'', ''i''], [''b'', ''h'', ''j'', ''a'', ''f'']]
     \<and> length (players (teams ! 0)) = 5 \<and> length (players (teams ! 1)) = 5
     \<and> mset (concat (map players teams)) = mset tenPlayers"
proof -
  have v: "10 \<le> length tenPlayers" "length tenPlayers mod 5 = 0"
    by (simp_all add: tenPlayers_def)
  from divideIntoTeams_snake_partition[OF v] obtain teams where t:
    "divideIntoTeams tenPlayers = Inr teams" "length teams = length tenPlayers div 5"
    "\<forall>t<length tenPlayers div 5. length (players (teams ! t)) = 5"
    "mset (concat (map players teams)) = mset tenPlayers"
    by blast
  have l: "length tenPlayers div 5 = 2" by (simp add: tenPlayers_def)
  from ten_result t(1) have
    "map (\<lambda>t. map gameName (players t)) teams
      = [[''g'', ''d'', ''e'', ''c'', ''i''], [''b'', ''h'', ''j'', ''a'', ''f'']]"
    by auto
  with t l show ?thesis by simp
qed

text \<open>
  C10.  Every team that \<open>divideIntoTeams\<close> returns has 5 members, and its lane assignment
  gives each of the five roles an occupant.  The occupants, listed by role, are a
  permutation of the members: every member occupies exactly one role, and the occupants
  are pairwise different whenever the members are.  The second pass fills the roles that
  nobody in the team has played.
\<close>

theorem laneAssignment_fills_every_role:
  assumes "divideIntoTeams ps = Inr teams" "team \<in> set teams"
  shows "length (players team) = 5
       \<and> (\<forall>l. laneAssignment team l \<noteq> None)
       \<and> (\<exists>occ. map (laneAssignment team) lanes = map Some occ
              \<and> mset occ = mset (players team)
              \<and> (distinct (players team) \<longrightarrow> distinct occ))"
proof -
  have v: "10 \<le> length ps" "length ps mod 5 = 0"
    using assms(1) by (auto simp: divideIntoTeams_def split: if_splits)
  define k where "k = length ps div 5"
  have k: "length (sort_key (\<lambda>p. - teamContribution p) ps) = 5 * k" using v by (auto simp: k_def)
  from divide_result[OF v] assms(1) obtain ts where ts:
    "teams = map setAverage (map optimizeLaneDistribution ts)" "length ts = k"
    "\<forall>t<k. players (ts ! t) = picks (draftOrder k) (sort_key (\<lambda>p. - teamContribution p) ps) 0 t"
    unfolding k_def by auto
  from assms(2) ts(1,2) obtain t where t: "t < k" "team = setAverage (optimizeLaneDistribution (ts ! t))"
    by (auto simp: in_set_conv_nth)
  have five: "length (players (ts ! t)) = 5"
    using ts(3) t(1) length_picks_snake[OF t(1) k] by simp
  from optimize_five[OF five] obtain occ where occ:
    "map (laneAssignment (optimizeLaneDistribution (ts ! t))) lanes = map Some occ"
    "mset occ = mset (players (ts ! t))" by blast
  have a: "length (players team) = 5" using five t(2) by simp
  have b: "map (laneAssignment team) lanes = map Some occ" using occ(1) t(2) by simp
  have c: "mset occ = mset (players team)" using occ(2) t(2) by simp
  have d: "distinct occ" if "distinct (players team)"
    using c that by (metis distinct_count_atmost_1 mset_eq_setD set_mset_mset)
  have e: "laneAssignment team l \<noteq> None" for l
  proof -
    have "l \<in> set lanes" by (simp add: set_lanes)
    then have "laneAssignment team l \<in> set (map (laneAssignment team) lanes)" by simp
    then show ?thesis unfolding b by auto
  qed
  from a b c d e show ?thesis by blast
qed

theorem laneAssignment_fills_every_role_witness:
  "\<exists>teams team. divideIntoTeams tenPlayers = Inr teams \<and> team \<in> set teams
     \<and> map gameName (players team) = [''g'', ''d'', ''e'', ''c'', ''i'']
     \<and> map (\<lambda>p. n_MIDDLE (laneDistribution p) + n_BOTTOM (laneDistribution p)
                 + n_UTILITY (laneDistribution p)) (players team) = [0, 0, 0, 0, 0]
     \<and> map (map_option gameName \<circ> laneAssignment team) lanes
        = [Some ''g'', Some ''c'', Some ''d'', Some ''e'', Some ''i'']
     \<and> length (players team) = 5
     \<and> (\<exists>occ. map (laneAssignment team) lanes = map Some occ
            \<and> mset occ = mset (players team) \<and> distinct occ)"
proof -
  from ten_result obtain teams where t: "divideIntoTeams tenPlayers = Inr teams"
    "map (\<lambda>t. map gameName (players t)) teams
      = [[''g'', ''d'', ''e'', ''c'', ''i''], [''b'', ''h'', ''j'', ''a'', ''f'']]"
    "map (\<lambda>t. map (map_option gameName \<circ> laneAssignment t) lanes) teams
      = [[Some ''g'', Some ''c'', Some ''d'', Some ''e'', Some ''i''],
         [Some ''a'', Some ''j'', Some ''b'', Some ''h'', Some ''f'']]"
    "map (\<lambda>t. map (\<lambda>p. n_MIDDLE (laneDistribution p) + n_BOTTOM (laneDistribution p)
                 + n_UTILITY (laneDistribution p)) (players t)) teams
      = [[0, 0, 0, 0, 0], [0, 0, 0, 0, 0]]"
    by (elim exE conjE)
  from t(2) obtain team rest where teams: "teams = team # rest" by (cases teams) auto
  then have m: "team \<in> set teams" by simp
  have names: "map gameName (players team) = [''g'', ''d'', ''e'', ''c'', ''i'']"
    using t(2) teams by simp
  have la: "map (map_option gameName \<circ> laneAssignment team) lanes
        = [Some ''g'', Some ''c'', Some ''d'', Some ''e'', Some ''i'']"
    using t(3) teams by simp
  have zero: "map (\<lambda>p. n_MIDDLE (laneDistribution p) + n_BOTTOM (laneDistribution p)
                 + n_UTILITY (laneDistribution p)) (players team) = [0, 0, 0, 0, 0]"
    using t(4) teams by simp
  have "distinct (map gameName (players team))" unfolding names by simp
  then have d: "distinct (players team)" by (simp add: distinct_map)
  from laneAssignment_fills_every_role[OF t(1) m]
  have five: "length (players team) = 5"
    and "\<exists>occ. map (laneAssignment team) lanes = map Some occ
            \<and> mset occ = mset (players team) \<and> (distinct (players team) \<longrightarrow> distinct occ)"
    by blast+
  with d have ex: "\<exists>occ. map (laneAssignment team) lanes = map Some occ
            \<and> mset occ = mset (players team) \<and> distinct occ"
    by blast
  show ?thesis
    using t(1) m names zero la five ex
    by - (rule exI[of _ teams], rule exI[of _ team], intro conjI; assumption)
qed

section \<open>The handler\<close>

lemma collectStats_Returned: "collectStats (map (\<lambda>x. Returned (f x)) xs) = map f xs"
  by (induction xs) (simp_all add: collectStats_def map_filter_simps)

lemma divide_members:
  assumes "divideIntoTeams ps = Inr teams"
  shows "mset (concat (map players teams)) = mset ps \<and> length teams = length ps div 5"
proof -
  have v: "10 \<le> length ps" "length ps mod 5 = 0"
    using assms by (auto simp: divideIntoTeams_def split: if_splits)
  define k where "k = length ps div 5"
  define sortedPlayers where "sortedPlayers = sort_key (\<lambda>p. - teamContribution p) ps"
  have k: "0 < k" using v by (auto simp: k_def)
  from divide_result[OF v] assms obtain ts where ts:
    "teams = map setAverage (map optimizeLaneDistribution ts)" "length ts = k"
    "\<forall>t<k. players (ts ! t) = picks (draftOrder k) sortedPlayers 0 t"
    unfolding k_def sortedPlayers_def by auto
  have "map players teams = map (picks (draftOrder k) sortedPlayers 0) [0..<k]"
    using ts by (auto simp: list_eq_iff_nth_eq)
  then have "mset (concat (map players teams)) = mset sortedPlayers"
    using mset_picks[of "draftOrder k" k sortedPlayers 0] draftOrder_bound k
    by (simp add: draftOrder_def)
  moreover have "length teams = k" using ts(1,2) by simp
  ultimately show ?thesis by (simp add: sortedPlayers_def k_def)
qed

lemma handler_divides_all:
  assumes "10 \<le> length identities" "length identities mod 5 = 0"
    and "length completion = length identities"
  shows "divideTeamsHandler math up completion identities
     = (case divideIntoTeams
              (map (\<lambda>i. case identities ! i of (gameName', tagLine') \<Rightarrow>
                           analyzePlayerStats math up gameName' tagLine') completion) of
          Inl e \<Rightarrow> Inl e
        | Inr teams \<Rightarrow> Inr (teams, round2 (calculateTeamBalance math teams)))"
proof -
  have "(\<lambda>i. case identities ! i of (gameName', tagLine') \<Rightarrow>
               Returned (analyzePlayerStats math up gameName' tagLine'))
      = (\<lambda>i. Returned (case identities ! i of (gameName', tagLine') \<Rightarrow>
               analyzePlayerStats math up gameName' tagLine'))"
    by (simp add: fun_eq_iff split: prod.splits)
  then have "collectStats (map (\<lambda>i. case identities ! i of (gameName', tagLine') \<Rightarrow>
               Returned (analyzePlayerStats math up gameName' tagLine')) completion)
      = map (\<lambda>i. case identities ! i of (gameName', tagLine') \<Rightarrow>
               analyzePlayerStats math up gameName' tagLine') completion"
    by (simp only: collectStats_Returned)
  with assms show ?thesis by (simp add: divideTeamsHandler_def Let_def)
qed

lemma analyses_mset:
  assumes "mset completion = mset [0..<length identities]"
  shows "mset (map (\<lambda>i. f (identities ! i)) completion) = mset (map f identities)"
proof -
  have "mset (map (\<lambda>i. f (identities ! i)) completion)
      = image_mset (\<lambda>i. f (identities ! i)) (mset completion)" by simp
  also have "\<dots> = mset (map (\<lambda>i. f (identities ! i)) [0..<length identities])"
    unfolding assms by simp
  also have "map (\<lambda>i. f (identities ! i)) [0..<length identities] = map f identities"
    by (rule nth_equalityI) simp_all
  finally show ?thesis .
qed

lemma demo_unranked:
  "gameName' \<notin> {''Hide'', ''Feed'', ''Nobody'', ''Busy''} \<Longrightarrow>
   analyzePlayerStats demoMath demoUpstream gameName' tagLine'
     = (zeroStats gameName' tagLine' (''puuid-'' @ gameName') None)\<lparr>teamContribution := 1200\<rparr>"
  by (simp add: analyzePlayerStats_def resolveAccount_def demoUpstream_def rankInfo_of_def
      matchIds_of_def tierInfo_of_def calculateTierScore_def Let_def)

lemma demo_placeholder:
  "gameName' \<in> {''Nobody'', ''Busy''} \<Longrightarrow>
   analyzePlayerStats demoMath demoUpstream gameName' tagLine'
     = zeroStats gameName' tagLine' ''unknown'' None"
  by (auto simp add: analyzePlayerStats_def resolveAccount_def demoUpstream_def)

lemma published_Hide: "fl (111667 / 100) = 613895824694313 / 549755813888"
  by (simp add: fl_eval)

text \<open>The division of the ten example identities when the analysis of \<open>Hide\<close> completes last.\<close>

lemma demo_division:
  "\<exists>teams. divideIntoTeams
        (map (\<lambda>i. case tenIdentities ! i of (gameName', tagLine') \<Rightarrow>
                     analyzePlayerStats demoMath demoUpstream gameName' tagLine') hideLast)
        = Inr teams
     \<and> map (\<lambda>t. map (\<lambda>p. (gameName p, puuid p, teamContribution p)) (players t)) teams
       = [[(''Ari'', ''puuid-Ari'', 1200), (''Di'', ''puuid-Di'', 1200), (''Eve'', ''puuid-Eve'', 1200),
           (''Hide'', ''puuid-Hide'', 613895824694313 / 549755813888), (''Nobody'', ''unknown'', 0)],
          [(''Bo'', ''puuid-Bo'', 1200), (''Cy'', ''puuid-Cy'', 1200), (''Fox'', ''puuid-Fox'', 1200),
           (''Gil'', ''puuid-Gil'', 1200), (''Busy'', ''unknown'', 0)]]"
  by (simp add: tenIdentities_def hideLast_def demo_unranked demo_placeholder demo_stats
        published_Hide divideIntoTeams_def zeroStats_def zeroCounts_def
        draftOrder_def emptyTeams_def Let_def optimizeLaneDistribution_def setAverage_def
        lanes_def findBestPlayerForLane_def splice1_def upt_rec)

text \<open>
  The order of completion decides between players of equal score: when the analyses
  complete in the reverse order of the identities, the teams are different ones.
\<close>

lemma demo_division_reversed:
  "\<exists>teams. divideIntoTeams
        (map (\<lambda>i. case tenIdentities ! i of (gameName', tagLine') \<Rightarrow>
                     analyzePlayerStats demoMath demoUpstream gameName' tagLine') lastFirst)
        = Inr teams
     \<and> map (\<lambda>t. map gameName (players t)) teams
       = [[''Gil'', ''Di'', ''Cy'', ''Hide'', ''Busy''], [''Fox'', ''Eve'', ''Bo'', ''Ari'', ''Nobody'']]"
  by (simp add: tenIdentities_def lastFirst_def demo_unranked demo_placeholder demo_stats
        published_Hide divideIntoTeams_def zeroStats_def zeroCounts_def
        draftOrder_def emptyTeams_def Let_def optimizeLaneDistribution_def setAverage_def
        lanes_def findBestPlayerForLane_def splice1_def upt_rec)

text \<open>
  C6.  For a batch of at least 10 identities, a multiple of 5, and whatever the order in
  which the analyses complete, the handler never fails with the error for too few
  results, however few of the identities resolve to accounts: the analyzer returns a
  zero-score placeholder for an unresolvable identity, the placeholder is pushed like any
  other result and counts toward the floor of 10, and the statistics of all identities,
  in the order of completion, are divided into \<open>n / 5\<close> teams whose members are the
  statistics of all the identities.
\<close>

theorem divideTeamsHandler_counts_placeholders:
  assumes "10 \<le> length identities" "length identities mod 5 = 0"
    and "mset completion = mset [0..<length identities]"
  shows "(\<exists>teams balance. divideTeamsHandler math up completion identities = Inr (teams, balance)
            \<and> divideIntoTeams
                 (map (\<lambda>i. case identities ! i of (gameName', tagLine') \<Rightarrow>
                              analyzePlayerStats math up gameName' tagLine') completion)
               = Inr teams
            \<and> length teams = length identities div 5
            \<and> mset (concat (map players teams))
               = mset (map (\<lambda>(gameName', tagLine'). analyzePlayerStats math up gameName' tagLine')
                        identities))
       \<and> (\<forall>n. divideTeamsHandler math up completion identities \<noteq> Inl (InsufficientResults n))"
proof -
  define stats where
    "stats = map (\<lambda>i. case identities ! i of (gameName', tagLine') \<Rightarrow>
                         analyzePlayerStats math up gameName' tagLine') completion"
  have lc: "length completion = length identities"
    using mset_eq_length[OF assms(3)] by simp
  have v: "10 \<le> length stats" "length stats mod 5 = 0"
    using assms(1,2) lc by (simp_all add: stats_def)
  from divide_result[OF v] obtain teams where t: "divideIntoTeams stats = Inr teams" by blast
  from divide_members[OF t] have
    m: "mset (concat (map players teams)) = mset stats"
    and l: "length teams = length identities div 5"
    using lc by (simp_all add: stats_def)
  have m': "mset (concat (map players teams))
      = mset (map (\<lambda>(gameName', tagLine'). analyzePlayerStats math up gameName' tagLine') identities)"
    unfolding m stats_def
    using analyses_mset[OF assms(3),
        of "\<lambda>(gameName', tagLine'). analyzePlayerStats math up gameName' tagLine'"]
    by simp
  have h: "divideTeamsHandler math up completion identities
      = Inr (teams, round2 (calculateTeamBalance math teams))"
    using handler_divides_all[OF assms(1,2) lc, of math up] t by (simp add: stats_def)
  have "\<exists>teams balance. divideTeamsHandler math up completion identities = Inr (teams, balance)
            \<and> divideIntoTeams stats = Inr teams \<and> length teams = length identities div 5
            \<and> mset (concat (map players teams))
               = mset (map (\<lambda>(gameName', tagLine'). analyzePlayerStats math up gameName' tagLine')
                        identities)"
    using h t l m' by blast
  moreover have "\<forall>n. divideTeamsHandler math up completion identities \<noteq> Inl (InsufficientResults n)"
    using h by simp
  ultimately show ?thesis unfolding stats_def by (rule conjI)
qed

theorem divideTeamsHandler_counts_placeholders_witness:
  "(\<exists>teams balance. divideTeamsHandler demoMath demoUpstream hideLast tenIdentities
        = Inr (teams, balance)
      \<and> length teams = 2)
   \<and> divideTeamsHandler demoMath demoUpstream hideLast tenIdentities
      \<noteq> Inl (InsufficientResults 8)"
proof -
  have v: "10 \<le> length tenIdentities" "length tenIdentities mod 5 = 0"
    by (simp_all add: tenIdentities_def)
  have c: "mset hideLast = mset [0..<length tenIdentities]"
    by (simp add: hideLast_def tenIdentities_def upt_rec eval_nat_numeral)
  have l: "length tenIdentities div 5 = 2" by (simp add: tenIdentities_def)
  from divideTeamsHandler_counts_placeholders[OF v c, of demoMath demoUpstream]
  obtain teams balance where
    h: "divideTeamsHandler demoMath demoUpstream hideLast tenIdentities = Inr (teams, balance)"
      "length teams = length tenIdentities div 5"
    by blast
  have "\<exists>teams balance. divideTeamsHandler demoMath demoUpstream hideLast tenIdentities
        = Inr (teams, balance) \<and> length teams = 2"
    using h unfolding l by blast
  moreover have "divideTeamsHandler demoMath demoUpstream hideLast tenIdentities
      \<noteq> Inl (InsufficientResults 8)"
    unfolding h(1) by simp
  ultimately show ?thesis by (rule conjI)
qed

text \<open>
  Ten identities of which only eight resolve: the handler returns two teams, and each of
  the two placeholders is a member of one.
\<close>

theorem placeholders_count_toward_ten:
  "length tenIdentities = 10
   \<and> length (filter (\<lambda>(gameName', tagLine'). resolveAccount demoUpstream gameName' tagLine' \<noteq> None)
               tenIdentities) = 8
   \<and> \<not> isl (divideTeamsHandler demoMath demoUpstream hideLast tenIdentities)
   \<and> map (\<lambda>t. map (\<lambda>p. (gameName p, puuid p, teamContribution p)) (players t))
         (fst (projr (divideTeamsHandler demoMath demoUpstream hideLast tenIdentities)))
       = [[(''Ari'', ''puuid-Ari'', 1200), (''Di'', ''puuid-Di'', 1200), (''Eve'', ''puuid-Eve'', 1200),
           (''Hide'', ''puuid-Hide'', 613895824694313 / 549755813888), (''Nobody'', ''unknown'', 0)],
          [(''Bo'', ''puuid-Bo'', 1200), (''Cy'', ''puuid-Cy'', 1200), (''Fox'', ''puuid-Fox'', 1200),
           (''Gil'', ''puuid-Gil'', 1200), (''Busy'', ''unknown'', 0)]]"
proof -
  have v: "10 \<le> length tenIdentities" "length tenIdentities mod 5 = 0"
    "length hideLast = length tenIdentities"
    by (simp_all add: tenIdentities_def hideLast_def)
  from demo_division obtain teams where t:
    "divideIntoTeams
        (map (\<lambda>i. case tenIdentities ! i of (gameName', tagLine') \<Rightarrow>
                     analyzePlayerStats demoMath demoUpstream gameName' tagLine') hideLast)
        = Inr teams"
    "map (\<lambda>t. map (\<lambda>p. (gameName p, puuid p, teamContribution p)) (players t)) teams
       = [[(''Ari'', ''puuid-Ari'', 1200), (''Di'', ''puuid-Di'', 1200), (''Eve'', ''puuid-Eve'', 1200),
           (''Hide'', ''puuid-Hide'', 613895824694313 / 549755813888), (''Nobody'', ''unknown'', 0)],
          [(''Bo'', ''puuid-Bo'', 1200), (''Cy'', ''puuid-Cy'', 1200), (''Fox'', ''puuid-Fox'', 1200),
           (''Gil'', ''puuid-Gil'', 1200), (''Busy'', ''unknown'', 0)]]"
    by (elim exE conjE)
  have h: "divideTeamsHandler demoMath demoUpstream hideLast tenIdentities
      = Inr (teams, round2 (calculateTeamBalance demoMath teams))"
    unfolding handler_divides_all[OF v] t(1) by simp
  have n: "length (filter (\<lambda>(gameName', tagLine'). resolveAccount demoUpstream gameName' tagLine' \<noteq> None)
               tenIdentities) = 8"
    by (simp add: tenIdentities_def resolveAccount_def demoUpstream_def)
  show ?thesis unfolding h using t(2) n v by (simp add: tenIdentities_def)
qed

end
